theory Spec2Isabelle
  imports Complex_Main "HOL-Library.Multiset"
begin

section \<open>Common ground: JavaScript maps, clock readings, log lines\<close>

text \<open>
  Both clients keep their in-flight items in a JavaScript \<^verbatim>\<open>Map\<close> keyed by a string
  (\<^verbatim>\<open>activeCalls\<close> in the AMI client, \<^verbatim>\<open>activeChannels\<close> in the ARI client).
  A \<^verbatim>\<open>Map\<close> iterates in insertion order, and the ARI client relies on that order when it
  scans for a correlation key, so the map is an association list: \<open>Map_set\<close> overwrites
  in place when the key is present and appends otherwise, \<open>Map_delete\<close> drops the entry.
  \<open>Map_modify\<close> is an assignment to a field of the object stored under a key
  (\<^verbatim>\<open>this.activeChannels.get(k).state = ...\<close>): the entry keeps its position.
\<close>

type_synonym ('k, 'v) js_map = "('k \<times> 'v) list"

fun Map_set :: "'k \<Rightarrow> 'v \<Rightarrow> ('k, 'v) js_map \<Rightarrow> ('k, 'v) js_map" where
  "Map_set k v [] = [(k, v)]"
| "Map_set k v (e # m) = (if fst e = k then (k, v) # m else e # Map_set k v m)"

definition Map_get :: "'k \<Rightarrow> ('k, 'v) js_map \<Rightarrow> 'v option" where
  "Map_get k m = map_of m k"

definition Map_delete :: "'k \<Rightarrow> ('k, 'v) js_map \<Rightarrow> ('k, 'v) js_map" where
  "Map_delete k m = filter (\<lambda>e. fst e \<noteq> k) m"

definition Map_modify :: "'k \<Rightarrow> ('v \<Rightarrow> 'v) \<Rightarrow> ('k, 'v) js_map \<Rightarrow> ('k, 'v) js_map" where
  "Map_modify k f m = map (\<lambda>e. if fst e = k then (fst e, f (snd e)) else e) m"

text \<open>
  Time. \<^verbatim>\<open>new Date()\<close> and \<^verbatim>\<open>Date.now()\<close> read the clock in milliseconds since the epoch;
  every function that reads the clock takes that reading as its argument \<open>now\<close>.
  SQLite's \<^verbatim>\<open>datetime('now')\<close> and \<^verbatim>\<open>CURRENT_TIMESTAMP\<close> store the same instant, in UTC, cut
  to whole seconds, as the text \<^verbatim>\<open>YYYY-MM-DD HH:MM:SS\<close> without a zone; a stored time is the
  number of seconds that text denotes in UTC. \<^verbatim>\<open>new Date(text)\<close> on such a text takes it for
  a time of the host's local zone: with the host \<open>zone\<close> milliseconds ahead of UTC, the
  instant it returns is \<open>zone\<close> milliseconds before the one that was stored.
\<close>

type_synonym datetime = int

definition datetime_now :: "int \<Rightarrow> datetime" where
  "datetime_now now = now div 1000"

definition Date_of :: "int \<Rightarrow> datetime \<Rightarrow> int" where
  "Date_of zone t = t * 1000 - zone"

text \<open>
  Of the log output only the \<^verbatim>\<open>warn\<close> and \<^verbatim>\<open>error\<close> lines are kept: they are what
  the code reports instead of raising.
\<close>

datatype log_level = Warn | Error

type_synonym log_entry = "log_level \<times> string"

section \<open>The record store (database/init.js)\<close>

text \<open>
  The three tables of \<^verbatim>\<open>initDatabase\<close>. A nullable column is an \<open>option\<close>. The columns
  \<^verbatim>\<open>created_at\<close> are never written by any statement, so they always hold their default,
  the insertion time. Events received from the manager interface are stored with the
  event itself in place of its JSON text.
\<close>

record call_row =
  c_id :: int
  unique_id :: string
  caller_id :: "string option"
  caller_name :: "string option"
  c_destination :: "string option"
  c_channel :: "string option"
  dest_channel :: "string option"
  start_time :: "datetime option"
  answer_time :: "datetime option"
  end_time :: "datetime option"
  duration_seconds :: "int option"
  hangup_cause :: "string option"
  hangup_cause_txt :: "string option"
  call_state :: "string option"
  c_created_at :: datetime
  c_updated_at :: "datetime option"

record transcription_row =
  t_id :: int
  call_id :: int
  recording_path :: "string option"
  transcription_text :: "string option"
  transcription_status :: "string option"
  processing_started_at :: "datetime option"
  processing_completed_at :: "datetime option"
  error_message :: "string option"
  t_created_at :: datetime
  t_updated_at :: "datetime option"

text \<open>
  An event of the manager interface, with the fields the tracker reads. \<open>ev_uniqueid\<close>
  is \<open>None\<close> when the payload has no \<^verbatim>\<open>uniqueid\<close>; \<open>ev_channelstate\<close> is the value
  of \<^verbatim>\<open>parseInt(event.channelstate)\<close>, \<open>None\<close> for \<^verbatim>\<open>NaN\<close>.
\<close>

record ami_event =
  ev_uniqueid :: "string option"
  ev_channel :: string
  ev_calleridnum :: string
  ev_calleridname :: string
  ev_exten :: string
  ev_channelstate :: "int option"
  ev_cause :: string
  ev_cause_txt :: string

record event_row =
  e_id :: int
  e_call_id :: int
  event_type :: string
  event_data :: ami_event
  e_timestamp :: datetime

text \<open>
  The database: the rows of each table in insertion order and, for each table, the last
  key handed out by \<^verbatim>\<open>AUTOINCREMENT\<close>.
\<close>

record database =
  calls :: "call_row list"
  transcriptions :: "transcription_row list"
  call_events :: "event_row list"
  seq_calls :: int
  seq_transcriptions :: int
  seq_call_events :: int

definition empty_database :: database where
  "empty_database = \<lparr>calls = [], transcriptions = [], call_events = [],
     seq_calls = 0, seq_transcriptions = 0, seq_call_events = 0\<rparr>"

text \<open>
  \<^verbatim>\<open>UPDATE t SET ... WHERE p\<close> rewrites every row that satisfies \<open>p\<close>;
  \<^verbatim>\<open>getRowsModified()\<close> is the number of those rows.
\<close>

definition sql_update :: "('r \<Rightarrow> bool) \<Rightarrow> ('r \<Rightarrow> 'r) \<Rightarrow> 'r list \<Rightarrow> 'r list" where
  "sql_update p f rows = map (\<lambda>r. if p r then f r else r) rows"

definition getRowsModified :: "('r \<Rightarrow> bool) \<Rightarrow> 'r list \<Rightarrow> nat" where
  "getRowsModified p rows = length (filter p rows)"

text \<open>
  The errors the driver raises: a second row with a \<^verbatim>\<open>unique_id\<close> already present
  violates the \<^verbatim>\<open>UNIQUE\<close> constraint; an \<^verbatim>\<open>undefined\<close> parameter cannot be bound.
\<close>

datatype db_error = UniqueConstraintFailed | BindUndefined

section \<open>Call repository (database/call-repository.js)\<close>

record callData =
  uniqueId :: string
  callerId :: string
  callerName :: string
  destination :: string
  channel :: string
  destChannel :: "string option"
  callState :: "string option"

definition getCallByUniqueId :: "database \<Rightarrow> string \<Rightarrow> call_row option" where
  "getCallByUniqueId db u = find (\<lambda>r. unique_id r = u) (calls db)"

text \<open>
  The \<^verbatim>\<open>INSERT\<close> of \<^verbatim>\<open>createCall\<close>. \<^verbatim>\<open>callData.destChannel || null\<close> and
  \<^verbatim>\<open>callData.callState || 'initiated'\<close> replace a missing or empty value.
\<close>

definition insert_call :: "database \<Rightarrow> int \<Rightarrow> callData \<Rightarrow> db_error + database" where
  "insert_call db now cd =
     (if uniqueId cd \<in> set (map unique_id (calls db)) then Inl UniqueConstraintFailed
      else Inr (db\<lparr>calls := calls db @
             [\<lparr>c_id = seq_calls db + 1,
               unique_id = uniqueId cd,
               caller_id = Some (callerId cd),
               caller_name = Some (callerName cd),
               c_destination = Some (destination cd),
               c_channel = Some (channel cd),
               dest_channel = (case destChannel cd of None \<Rightarrow> None
                                | Some d \<Rightarrow> if d = [] then None else Some d),
               start_time = Some (datetime_now now),
               answer_time = None,
               end_time = None,
               duration_seconds = None,
               hangup_cause = None,
               hangup_cause_txt = None,
               call_state = (case callState cd of None \<Rightarrow> Some ''initiated''
                              | Some s \<Rightarrow> if s = [] then Some ''initiated'' else Some s),
               c_created_at = datetime_now now,
               c_updated_at = Some (datetime_now now)\<rparr>],
             seq_calls := seq_calls db + 1\<rparr>))"

text \<open>
  \<^verbatim>\<open>createCall\<close> returns the new row's id (\<^verbatim>\<open>last_insert_rowid()\<close>); when the insert
  fails on the \<^verbatim>\<open>UNIQUE\<close> constraint it looks the row up and returns
  \<^verbatim>\<open>existing?.id\<close> (\<open>None\<close> is \<^verbatim>\<open>undefined\<close>); any other error is thrown on.
\<close>

definition createCall :: "database \<Rightarrow> int \<Rightarrow> callData \<Rightarrow> database \<times> (db_error + int option)" where
  "createCall db now cd =
     (case insert_call db now cd of
        Inr db' \<Rightarrow> (db', Inr (Some (seq_calls db')))
      | Inl UniqueConstraintFailed \<Rightarrow>
          (db, Inr (map_option c_id (getCallByUniqueId db (uniqueId cd))))
      | Inl e \<Rightarrow> (db, Inl e))"

definition updateCallAnswered :: "database \<Rightarrow> int \<Rightarrow> string \<Rightarrow> database \<times> bool" where
  "updateCallAnswered db now u =
     (db\<lparr>calls := sql_update (\<lambda>r. unique_id r = u)
              (\<lambda>r. r\<lparr>answer_time := Some (datetime_now now),
                      call_state := Some ''answered'',
                      c_updated_at := Some (datetime_now now)\<rparr>) (calls db)\<rparr>,
      0 < getRowsModified (\<lambda>r. unique_id r = u) (calls db))"

text \<open>
  \<^verbatim>\<open>updateCallEnded\<close> computes the duration from \<^verbatim>\<open>new Date(call.answer_time)\<close> and
  \<^verbatim>\<open>new Date()\<close>; \<open>zone\<close> is the host's offset from UTC in milliseconds.
\<close>

definition updateCallEnded ::
  "database \<Rightarrow> int \<Rightarrow> int \<Rightarrow> string \<Rightarrow> string \<Rightarrow> string \<Rightarrow> database \<times> bool \<times> log_entry list" where
  "updateCallEnded db zone now u hangupCause hangupCauseTxt =
     (case getCallByUniqueId db u of
        None \<Rightarrow> (db, False, [(Warn, ''Call not found for hangup'')])
      | Some call \<Rightarrow>
          (let durationSeconds =
                 (case answer_time call of
                    None \<Rightarrow> 0
                  | Some a \<Rightarrow> (now - Date_of zone a) div 1000)
           in (db\<lparr>calls := sql_update (\<lambda>r. unique_id r = u)
                    (\<lambda>r. r\<lparr>end_time := Some (datetime_now now),
                            duration_seconds := Some durationSeconds,
                            hangup_cause := Some hangupCause,
                            hangup_cause_txt := Some hangupCauseTxt,
                            call_state := Some ''ended'',
                            c_updated_at := Some (datetime_now now)\<rparr>) (calls db)\<rparr>,
               0 < getRowsModified (\<lambda>r. unique_id r = u) (calls db),
               [])))"

definition updateCallState :: "database \<Rightarrow> int \<Rightarrow> string \<Rightarrow> string \<Rightarrow> database \<times> bool" where
  "updateCallState db now u s =
     (db\<lparr>calls := sql_update (\<lambda>r. unique_id r = u)
              (\<lambda>r. r\<lparr>call_state := Some s, c_updated_at := Some (datetime_now now)\<rparr>) (calls db)\<rparr>,
      0 < getRowsModified (\<lambda>r. unique_id r = u) (calls db))"

text \<open>
  \<^verbatim>\<open>logCallEvent\<close> appends to the event log. The caller passes the id it holds for the
  call; \<open>None\<close> is an \<^verbatim>\<open>undefined\<close> id, which the driver refuses to bind.
\<close>

definition logCallEvent ::
  "database \<Rightarrow> int \<Rightarrow> int option \<Rightarrow> string \<Rightarrow> ami_event \<Rightarrow> db_error + database" where
  "logCallEvent db now callId eventType eventData =
     (case callId of
        None \<Rightarrow> Inl BindUndefined
      | Some i \<Rightarrow>
          Inr (db\<lparr>call_events := call_events db @
                 [\<lparr>e_id = seq_call_events db + 1, e_call_id = i, event_type = eventType,
                   event_data = eventData, e_timestamp = datetime_now now\<rparr>],
               seq_call_events := seq_call_events db + 1\<rparr>))"

section \<open>Transcription repository (database/transcription-repository.js)\<close>

definition createTranscription ::
  "database \<Rightarrow> int \<Rightarrow> int option \<Rightarrow> string \<Rightarrow> db_error + (database \<times> int)" where
  "createTranscription db now callId recordingPath =
     (case callId of
        None \<Rightarrow> Inl BindUndefined
      | Some c \<Rightarrow>
          Inr (db\<lparr>transcriptions := transcriptions db @
                 [\<lparr>t_id = seq_transcriptions db + 1,
                   call_id = c,
                   recording_path = Some recordingPath,
                   transcription_text = None,
                   transcription_status = Some ''pending'',
                   processing_started_at = None,
                   processing_completed_at = None,
                   error_message = None,
                   t_created_at = datetime_now now,
                   t_updated_at = Some (datetime_now now)\<rparr>],
               seq_transcriptions := seq_transcriptions db + 1\<rparr>,
               seq_transcriptions db + 1))"

definition markAsProcessing :: "database \<Rightarrow> int \<Rightarrow> int \<Rightarrow> database \<times> bool" where
  "markAsProcessing db now transcriptionId =
     (db\<lparr>transcriptions := sql_update (\<lambda>t. t_id t = transcriptionId)
              (\<lambda>t. t\<lparr>transcription_status := Some ''processing'',
                      processing_started_at := Some (datetime_now now),
                      t_updated_at := Some (datetime_now now)\<rparr>) (transcriptions db)\<rparr>,
      0 < getRowsModified (\<lambda>t. t_id t = transcriptionId) (transcriptions db))"

definition completeTranscription :: "database \<Rightarrow> int \<Rightarrow> int \<Rightarrow> string \<Rightarrow> database \<times> bool" where
  "completeTranscription db now transcriptionId transcriptionText =
     (db\<lparr>transcriptions := sql_update (\<lambda>t. t_id t = transcriptionId)
              (\<lambda>t. t\<lparr>transcription_text := Some transcriptionText,
                      transcription_status := Some ''completed'',
                      processing_completed_at := Some (datetime_now now),
                      t_updated_at := Some (datetime_now now)\<rparr>) (transcriptions db)\<rparr>,
      0 < getRowsModified (\<lambda>t. t_id t = transcriptionId) (transcriptions db))"

definition failTranscription :: "database \<Rightarrow> int \<Rightarrow> int \<Rightarrow> string \<Rightarrow> database \<times> bool" where
  "failTranscription db now transcriptionId errorMessage =
     (db\<lparr>transcriptions := sql_update (\<lambda>t. t_id t = transcriptionId)
              (\<lambda>t. t\<lparr>transcription_status := Some ''failed'',
                      error_message := Some errorMessage,
                      processing_completed_at := Some (datetime_now now),
                      t_updated_at := Some (datetime_now now)\<rparr>) (transcriptions db)\<rparr>,
      0 < getRowsModified (\<lambda>t. t_id t = transcriptionId) (transcriptions db))"

definition getTranscriptionById :: "database \<Rightarrow> int \<Rightarrow> transcription_row option" where
  "getTranscriptionById db i = find (\<lambda>t. t_id t = i) (transcriptions db)"

text \<open>
  \<^verbatim>\<open>SELECT * FROM transcriptions WHERE transcription_status = 'pending' ORDER BY created_at ASC\<close>;
  rows created in the same second stay in insertion order.
\<close>

definition getPendingTranscriptions :: "database \<Rightarrow> transcription_row list" where
  "getPendingTranscriptions db =
     sort_key t_created_at
       (filter (\<lambda>t. transcription_status t = Some ''pending'') (transcriptions db))"

section \<open>AI processor (services/ai-processor.js)\<close>

definition mockTranscriptions :: "string list" where
  "mockTranscriptions =
    [''Hello, I'm calling to inquire about your services. Can you please provide more information about pricing and availability?'',
     ''Hi there, I need to schedule an appointment for next week. What times do you have available on Tuesday or Wednesday?'',
     ''Good afternoon, I'm following up on my previous inquiry. Has there been any update on my case?'',
     ''Yes, I'd like to place an order for the premium package. Can you walk me through the process?'',
     ''I'm experiencing an issue with my account and need assistance resolving it as soon as possible.'',
     ''Thank you for your help earlier. I have a few additional questions about the service.'',
     ''I'm interested in learning more about your AI integration capabilities for our business.'',
     ''Could you please transfer me to the technical support department? I have a system-related question.'',
     ''I'd like to provide feedback about my recent experience with your company.'',
     ''Hello, I'm returning your call from earlier today. What did you need to discuss?'']"

text \<open>
  \<^verbatim>\<open>Math.floor(Math.random() * mockTranscriptions.length)\<close> is an index below the length
  of the pool; the argument \<open>draw\<close> stands for the random draw.
\<close>

definition generateMockTranscription :: "nat \<Rightarrow> string" where
  "generateMockTranscription draw = mockTranscriptions ! (draw mod length mockTranscriptions)"

datatype processing_result =
  Success int string
| Failure int string

text \<open>
  \<^verbatim>\<open>processRecording\<close> marks the job as processing, waits, and stores the text.
  \<open>nowStart\<close> and \<open>nowEnd\<close> are the clock before and after the simulated delay. The two
  repository calls are started without \<^verbatim>\<open>await\<close>: their updates are carried out in this
  order, but an error in them is not seen by the \<^verbatim>\<open>try\<close>; the delay and the choice of
  the text do not raise, so the \<^verbatim>\<open>catch\<close> branch, which would call
  \<open>failTranscription\<close>, is never entered.
\<close>

definition processRecording ::
  "database \<Rightarrow> int \<Rightarrow> int \<Rightarrow> nat \<Rightarrow> int \<Rightarrow> string option \<Rightarrow> database \<times> processing_result" where
  "processRecording db nowStart nowEnd draw transcriptionId recordingPath =
     (let db1 = fst (markAsProcessing db nowStart transcriptionId);
          transcription = generateMockTranscription draw;
          db2 = fst (completeTranscription db1 nowEnd transcriptionId transcription)
      in (db2, Success transcriptionId transcription))"

text \<open>
  \<^verbatim>\<open>retryFailed\<close> binds \<^verbatim>\<open>pending\<close> to what \<^verbatim>\<open>getPendingTranscriptions()\<close> returns.
  That function is \<^verbatim>\<open>async\<close> and the call has no \<^verbatim>\<open>await\<close>, so \<^verbatim>\<open>pending\<close> is the
  promise, not the array it resolves to. A JavaScript value is therefore either a plain
  value or a promise of one, and \<^verbatim>\<open>for (... of x)\<close> raises a \<^verbatim>\<open>TypeError\<close> on a promise,
  which is not iterable. \<open>env\<close> gives, for each job id, the clock readings and the draw
  of its \<open>processRecording\<close>.
\<close>

datatype 'a js_value = Plain 'a | Promise 'a

datatype js_error = TypeError string

definition for_of :: "'a list js_value \<Rightarrow> js_error + 'a list" where
  "for_of x = (case x of Plain xs \<Rightarrow> Inr xs | Promise xs \<Rightarrow> Inl (TypeError ''pending is not iterable''))"

definition retryFailed ::
  "database \<Rightarrow> (int \<Rightarrow> int \<times> int \<times> nat) \<Rightarrow> database \<times> (js_error + unit)" where
  "retryFailed db env =
     (let pending = Promise (getPendingTranscriptions db)
      in case for_of pending of
           Inl e \<Rightarrow> (db, Inl e)
         | Inr ts \<Rightarrow>
             (foldl (\<lambda>d transcription.
                       (case env (t_id transcription) of
                          (nowStart, nowEnd, draw) \<Rightarrow>
                            fst (processRecording d nowStart nowEnd draw
                                   (t_id transcription) (recording_path transcription))))
                    db ts,
              Inr ()))"

section \<open>Call lifecycle tracker (services/ami-client.js)\<close>

text \<open>
  An entry of the active-call cache is \<^verbatim>\<open>{ id: callId, ...callData }\<close>.
  A notification is an \<^verbatim>\<open>emit\<close> of the client: the event name and the \<^verbatim>\<open>uniqueid\<close> it
  concerns.
\<close>

record active_call = callData +
  ac_id :: "int option"

record tracker =
  db :: database
  activeCalls :: "(string, active_call) js_map"

datatype notification = Notify string "string option"

text \<open>
  \<^verbatim>\<open>if (!uniqueId) return\<close>: a missing \<^verbatim>\<open>uniqueid\<close> and the empty string are both falsy.
\<close>

definition handleNewChannel ::
  "tracker \<Rightarrow> int \<Rightarrow> ami_event \<Rightarrow> tracker \<times> notification list \<times> log_entry list" where
  "handleNewChannel t now event =
     (case ev_uniqueid event of
        None \<Rightarrow> (t, [], [])
      | Some u \<Rightarrow>
          if u = [] then (t, [], [])
          else
            (let cd = \<lparr>uniqueId = u, callerId = ev_calleridnum event,
                       callerName = ev_calleridname event, destination = ev_exten event,
                       channel = ev_channel event, destChannel = None,
                       callState = Some ''initiated''\<rparr>
             in case createCall (db t) now cd of
                  (db1, Inl e) \<Rightarrow>
                    (t\<lparr>db := db1\<rparr>, [Notify ''newchannel'' (Some u)],
                     [(Error, ''Error creating call record:'')])
                | (db1, Inr callId) \<Rightarrow>
                    (let cache = Map_set u (callData.extend cd (active_call.fields callId))
                                   (activeCalls t)
                     in case logCallEvent db1 now callId ''newchannel'' event of
                          Inl e \<Rightarrow>
                            (\<lparr>db = db1, activeCalls = cache\<rparr>, [Notify ''newchannel'' (Some u)],
                             [(Error, ''Error creating call record:'')])
                        | Inr db2 \<Rightarrow>
                            (\<lparr>db = db2, activeCalls = cache\<rparr>, [Notify ''newchannel'' (Some u)],
                             []))))"

text \<open>
  \<^verbatim>\<open>handleNewState\<close>: channel state 6 is "Up". With no \<^verbatim>\<open>uniqueid\<close> the update cannot bind
  its parameter; the \<^verbatim>\<open>try\<close> absorbs that error, as it does a failing event-log insert.
\<close>

definition handleNewState ::
  "tracker \<Rightarrow> int \<Rightarrow> ami_event \<Rightarrow> tracker \<times> notification list \<times> log_entry list" where
  "handleNewState t now event =
     (if ev_channelstate event = Some 6 then
        (case ev_uniqueid event of
           None \<Rightarrow>
             (t, [Notify ''callanswered'' None, Notify ''newstate'' None],
              [(Error, ''Error updating call answered:'')])
         | Some u \<Rightarrow>
             (let db1 = fst (updateCallAnswered (db t) now u)
              in case Map_get u (activeCalls t) of
                   None \<Rightarrow>
                     (t\<lparr>db := db1\<rparr>,
                      [Notify ''callanswered'' (Some u), Notify ''newstate'' (Some u)], [])
                 | Some call \<Rightarrow>
                     (case logCallEvent db1 now (ac_id call) ''answered'' event of
                        Inl e \<Rightarrow>
                          (t\<lparr>db := db1\<rparr>,
                           [Notify ''callanswered'' (Some u), Notify ''newstate'' (Some u)],
                           [(Error, ''Error updating call answered:'')])
                      | Inr db2 \<Rightarrow>
                          (t\<lparr>db := db2\<rparr>,
                           [Notify ''callanswered'' (Some u), Notify ''newstate'' (Some u)],
                           []))))
      else (t, [Notify ''newstate'' (ev_uniqueid event)], []))"

text \<open>
  \<^verbatim>\<open>handleHangup\<close> (\<open>zone\<close> is the host's offset from UTC, which \<open>updateCallEnded\<close>
  meets when it reads the answer time): the record is closed first; then, if the cache holds the call, the
  event is logged and the entry evicted. An error inside the \<^verbatim>\<open>try\<close> skips what
  follows it there, so a failing event-log insert leaves the cache entry in place.
\<close>

definition handleHangup ::
  "tracker \<Rightarrow> int \<Rightarrow> int \<Rightarrow> ami_event \<Rightarrow> tracker \<times> notification list \<times> log_entry list" where
  "handleHangup t zone now event =
     (case ev_uniqueid event of
        None \<Rightarrow> (t, [Notify ''hangup'' None], [(Error, ''Error updating call hangup:'')])
      | Some u \<Rightarrow>
          (case updateCallEnded (db t) zone now u (ev_cause event) (ev_cause_txt event) of
             (db1, changed, logs) \<Rightarrow>
               (case Map_get u (activeCalls t) of
                  None \<Rightarrow> (t\<lparr>db := db1\<rparr>, [Notify ''hangup'' (Some u)], logs)
                | Some call \<Rightarrow>
                    (case logCallEvent db1 now (ac_id call) ''hangup'' event of
                       Inl e \<Rightarrow>
                         (t\<lparr>db := db1\<rparr>, [Notify ''hangup'' (Some u)],
                          logs @ [(Error, ''Error updating call hangup:'')])
                     | Inr db2 \<Rightarrow>
                         (\<lparr>db = db2, activeCalls = Map_delete u (activeCalls t)\<rparr>,
                          [Notify ''hangup'' (Some u)], logs)))))"

section \<open>Connection supervision (services/ami-client.js)\<close>

text \<open>
  The connection fields of the client. \<open>reconnectTimer\<close> tells whether a reconnect timer
  is outstanding: \<^verbatim>\<open>scheduleReconnect\<close> clears a timer it finds before it sets the new
  one, so there is never more than one. \<open>maxReconnectAttempts\<close> is
  \<^verbatim>\<open>parseInt(process.env.MAX_RECONNECT_ATTEMPTS) || 0\<close>.
\<close>

record supervisor =
  host :: string
  port :: int
  reconnectInterval :: int
  maxReconnectAttempts :: int
  isConnected :: bool
  reconnectAttempts :: int
  reconnectTimer :: bool
  shouldReconnect :: bool


definition scheduleReconnect :: "supervisor \<Rightarrow> supervisor \<times> log_entry list" where
  "scheduleReconnect s =
     (if \<not> shouldReconnect s then (s, [])
      else if 0 < maxReconnectAttempts s \<and> maxReconnectAttempts s \<le> reconnectAttempts s
      then (s, [(Error, ''Max reconnect attempts reached'')])
      else (s\<lparr>reconnectAttempts := reconnectAttempts s + 1, reconnectTimer := True\<rparr>, []))"





definition disconnect :: "supervisor \<Rightarrow> supervisor" where
  "disconnect s = s\<lparr>shouldReconnect := False, reconnectTimer := False, isConnected := False\<rparr>"




section \<open>Voice pipeline orchestrator (services/ari-client.js)\<close>

text \<open>
  A channel of the control interface and the entry the orchestrator keeps for it in
  \<^verbatim>\<open>activeChannels\<close>. \<open>state\<close> is the string the code assigns. \<open>currentPlayback\<close> and
  \<open>recordingName\<close> are \<open>None\<close> while the property is not set, \<open>pendingRecording\<close> is
  \<open>False\<close> while it is unset or \<^verbatim>\<open>false\<close>.
\<close>

record ari_channel =
  ch_id :: string
  ch_caller_number :: string
  ch_caller_name :: string

record session =
  s_channel :: ari_channel
  s_callerId :: string
  s_callerName :: string
  startTime :: int
  state :: string
  currentPlayback :: "string option"
  pendingRecording :: bool
  recordingName :: "string option"

text \<open>
  The commands sent to the switch. \<open>Later d c\<close> is a \<^verbatim>\<open>setTimeout\<close> that issues \<open>c\<close> after
  \<open>d\<close> milliseconds. A command's outcome is an argument of the handler that awaits it.
\<close>

datatype command =
  Answer string
| Play string string
| Record string string
| StopRecording string
| Hangup string string
| Later int command

text \<open>The decimal text of a number, as a template string renders \<^verbatim>\<open>Date.now()\<close>.\<close>

fun dec :: "nat \<Rightarrow> string" where
  "dec n = (if n < 10 then [''0123456789'' ! n]
            else dec (n div 10) @ [''0123456789'' ! (n mod 10)])"

declare dec.simps [simp del]

definition String_of :: "int \<Rightarrow> string" where
  "String_of i = (if i < 0 then CHR ''-'' # dec (nat (- i)) else dec (nat i))"

text \<open>
  \<^verbatim>\<open>playPrompt\<close> stores the playback id and sets the pending flag before it sends the play
  command; a failing command is thrown on to the caller (\<open>Inl\<close>), the entry staying as
  written.
\<close>

definition playPrompt ::
  "(string, session) js_map \<Rightarrow> ari_channel \<Rightarrow> string \<Rightarrow> string \<Rightarrow> bool \<Rightarrow>
     (string, session) js_map \<times> command list \<times> bool" where
  "playPrompt m chan sound playbackId playOk =
     (let m1 = (case Map_get (ch_id chan) m of
                  None \<Rightarrow> m
                | Some channelData \<Rightarrow>
                    Map_modify (ch_id chan)
                      (\<lambda>d. d\<lparr>currentPlayback := Some playbackId, pendingRecording := True\<rparr>) m)
      in (m1, [Play (ch_id chan) (''sound:'' @ sound)], playOk))"

text \<open>
  \<^verbatim>\<open>handleStasisStart\<close>: the entry is stored in state \<^verbatim>\<open>'started'\<close>; after a successful
  answer its state is \<^verbatim>\<open>'answered'\<close> and the prompt is played. A failing answer or play
  ends in a hangup with reason \<^verbatim>\<open>'error'\<close>.
\<close>

definition register_channel ::
  "(string, session) js_map \<Rightarrow> int \<Rightarrow> ari_channel \<Rightarrow> (string, session) js_map" where
  "register_channel m now chan =
     Map_set (ch_id chan)
       \<lparr>s_channel = chan, s_callerId = ch_caller_number chan,
        s_callerName = ch_caller_name chan, startTime = now, state = ''started'',
        currentPlayback = None, pendingRecording = False, recordingName = None\<rparr> m"

definition mark_answered ::
  "(string, session) js_map \<Rightarrow> ari_channel \<Rightarrow> (string, session) js_map" where
  "mark_answered m chan = Map_modify (ch_id chan) (\<lambda>d. d\<lparr>state := ''answered''\<rparr>) m"

definition handleStasisStart ::
  "(string, session) js_map \<Rightarrow> int \<Rightarrow> ari_channel \<Rightarrow> bool \<Rightarrow> bool \<Rightarrow> string \<Rightarrow>
     (string, session) js_map \<times> command list" where
  "handleStasisStart m now chan answerOk playOk playbackId =
     (let m1 = register_channel m now chan
      in if \<not> answerOk then (m1, [Answer (ch_id chan), Hangup (ch_id chan) ''error''])
         else
           (case playPrompt (mark_answered m1 chan) chan ''demo-congrats'' playbackId playOk of
              (m2, cmds, ok) \<Rightarrow>
                (m2, Answer (ch_id chan) # cmds @
                       (if ok then [] else [Hangup (ch_id chan) ''error'']))))"

text \<open>
  \<^verbatim>\<open>startRecording\<close> names the recording after the channel and the clock, writes the name
  and the state \<^verbatim>\<open>'recording'\<close> into the channel's entry, plays the optional beep and
  starts the recording; a failing record command ends in a hangup.
\<close>

definition startRecording ::
  "(string, session) js_map \<Rightarrow> int \<Rightarrow> int \<Rightarrow> ari_channel \<Rightarrow> bool \<Rightarrow>
     (string, session) js_map \<times> command list" where
  "startRecording m now recordingDuration chan recordOk =
     (let name = ''recording-'' @ ch_id chan @ ''-'' @ String_of now;
          m1 = (case Map_get (ch_id chan) m of
                  None \<Rightarrow> m
                | Some channelData \<Rightarrow>
                    Map_modify (ch_id chan)
                      (\<lambda>d. d\<lparr>recordingName := Some name, state := ''recording''\<rparr>) m)
      in (m1, [Play (ch_id chan) ''sound:beep'', Record (ch_id chan) name] @
              (if recordOk then [Later ((recordingDuration + 1) * 1000) (StopRecording name)]
               else [Hangup (ch_id chan) ''recording_error''])))"

text \<open>
  The scan of \<^verbatim>\<open>handlePlaybackFinished\<close>: the first entry, in insertion order, whose
  \<^verbatim>\<open>currentPlayback\<close> is the finished playback and whose pending flag is set. The loop
  clears the flag of that entry, starts the recording on its channel and breaks.
\<close>

definition find_playback ::
  "(string, session) js_map \<Rightarrow> string \<Rightarrow> (string \<times> session) option" where
  "find_playback m playbackId =
     find (\<lambda>e. currentPlayback (snd e) = Some playbackId \<and> pendingRecording (snd e)) m"

definition handlePlaybackFinished ::
  "(string, session) js_map \<Rightarrow> int \<Rightarrow> int \<Rightarrow> string \<Rightarrow> bool \<Rightarrow>
     (string, session) js_map \<times> command list" where
  "handlePlaybackFinished m now recordingDuration playbackId recordOk =
     (case find_playback m playbackId of
        None \<Rightarrow> (m, [])
      | Some (channelId, data) \<Rightarrow>
          startRecording (Map_modify channelId (\<lambda>d. d\<lparr>pendingRecording := False\<rparr>) m)
            now recordingDuration (s_channel data) recordOk)"

text \<open>
  The scan of \<^verbatim>\<open>handleRecordingFinished\<close>: the first entry whose \<^verbatim>\<open>recordingName\<close> is the
  finished recording. Its state becomes \<^verbatim>\<open>'processing'\<close>; the call record is looked up
  or created, a transcription job is created and handed to the processor (the job id and
  path are returned as the third component), and the goodbye message is played, followed
  by a hangup.
\<close>

definition find_recording ::
  "(string, session) js_map \<Rightarrow> string \<Rightarrow> (string \<times> session) option" where
  "find_recording m name = find (\<lambda>e. recordingName (snd e) = Some name) m"

definition save_recording_info ::
  "database \<Rightarrow> int \<Rightarrow> string \<Rightarrow> session \<Rightarrow> string \<Rightarrow>
     database \<times> (int \<times> string) option \<times> log_entry list" where
  "save_recording_info d now channelId data recordingPath =
     (case (case getCallByUniqueId d channelId of
              Some existingCall \<Rightarrow> (d, Inr (Some (c_id existingCall)))
            | None \<Rightarrow>
                createCall d now
                  \<lparr>uniqueId = channelId, callerId = s_callerId data,
                   callerName = s_callerName data, destination = ''777'',
                   channel = ''ARI/'' @ channelId, destChannel = None,
                   callState = Some ''in_stasis''\<rparr>) of
        (d1, Inl e) \<Rightarrow> (d1, None, [(Error, ''Error saving recording info:'')])
      | (d1, Inr callId) \<Rightarrow>
          (case createTranscription d1 now callId recordingPath of
             Inl e \<Rightarrow> (d1, None, [(Error, ''Error saving recording info:'')])
           | Inr (d2, transcriptionId) \<Rightarrow> (d2, Some (transcriptionId, recordingPath), [])))"

definition handleRecordingFinished ::
  "(string, session) js_map \<Rightarrow> database \<Rightarrow> int \<Rightarrow> string \<Rightarrow> bool \<Rightarrow>
     (string, session) js_map \<times> database \<times> (int \<times> string) option \<times> command list \<times> log_entry list" where
  "handleRecordingFinished m d now name goodbyeOk =
     (case find_recording m name of
        None \<Rightarrow> (m, d, None, [], [])
      | Some (channelId, data) \<Rightarrow>
          (let m1 = Map_modify channelId (\<lambda>x. x\<lparr>state := ''processing''\<rparr>) m;
               recordingPath = ''/var/spool/asterisk/recording/'' @ name @ ''.wav''
           in case save_recording_info d now channelId data recordingPath of
                (d1, job, logs) \<Rightarrow>
                  (m1, d1, job,
                   Play (ch_id (s_channel data)) ''sound:vm-goodbye'' #
                     (if goodbyeOk then [Later 2000 (Hangup (ch_id (s_channel data)) ''normal'')]
                      else [Hangup (ch_id (s_channel data)) ''normal'']),
                   logs @ (if goodbyeOk then [] else [(Error, ''Error playing goodbye:'')]))))"

definition handleStasisEnd ::
  "(string, session) js_map \<Rightarrow> ari_channel \<Rightarrow> (string, session) js_map \<times> notification list" where
  "handleStasisEnd m chan = (Map_delete (ch_id chan) m, [Notify ''stasisend'' (Some (ch_id chan))])"

text \<open>
  The events the control interface delivers, each with the clock reading and the command
  outcomes its handler meets, and the session index and record store after one event.
\<close>

datatype ari_event =
  StasisStart int ari_channel bool bool string
| PlaybackFinished int int string bool
| RecordingFinished int string bool
| StasisEnd ari_channel

fun ari_step ::
  "(string, session) js_map \<times> database \<Rightarrow> ari_event \<Rightarrow> (string, session) js_map \<times> database" where
  "ari_step (m, d) (StasisStart now chan answerOk playOk playbackId) =
     (fst (handleStasisStart m now chan answerOk playOk playbackId), d)"
| "ari_step (m, d) (PlaybackFinished now recordingDuration playbackId recordOk) =
     (fst (handlePlaybackFinished m now recordingDuration playbackId recordOk), d)"
| "ari_step (m, d) (RecordingFinished now name goodbyeOk) =
     (case handleRecordingFinished m d now name goodbyeOk of
        (m1, d1, job, cmds, logs) \<Rightarrow> (m1, d1))"
| "ari_step (m, d) (StasisEnd chan) = (fst (handleStasisEnd m chan), d)"

section \<open>Notions used in the statements\<close>

text \<open>
  The writers of the \<^verbatim>\<open>calls\<close> table, as operations that can be applied in any order:
  whatever the two clients do to the table is a sequence of these.
\<close>

datatype call_op =
  CreateCall int callData
| UpdateCallAnswered int string
| UpdateCallEnded int int string string string
| UpdateCallState int string string

fun apply_call_op :: "database \<Rightarrow> call_op \<Rightarrow> database" where
  "apply_call_op d (CreateCall now cd) = fst (createCall d now cd)"
| "apply_call_op d (UpdateCallAnswered now u) = fst (updateCallAnswered d now u)"
| "apply_call_op d (UpdateCallEnded zone now u c txt) = fst (updateCallEnded d zone now u c txt)"
| "apply_call_op d (UpdateCallState now u s) = fst (updateCallState d now u s)"

text \<open>The records of a given \<^verbatim>\<open>unique_id\<close>, and the state of the one \<open>getCallByUniqueId\<close> finds.\<close>

definition records_of :: "database \<Rightarrow> string \<Rightarrow> call_row list" where
  "records_of d u = filter (\<lambda>r. unique_id r = u) (calls d)"

definition state_of :: "database \<Rightarrow> string \<Rightarrow> string option" where
  "state_of d u = (case getCallByUniqueId d u of None \<Rightarrow> None | Some r \<Rightarrow> call_state r)"

definition status_of :: "database \<Rightarrow> int \<Rightarrow> string option" where
  "status_of d i = (case getTranscriptionById d i of None \<Rightarrow> None | Some t \<Rightarrow> transcription_status t)"

text \<open>
  Every call the tracker holds in its cache has a record in the store: the cache is
  filled only after \<open>createCall\<close> has returned, and no statement deletes a call.
\<close>

definition cache_backed :: "tracker \<Rightarrow> bool" where
  "cache_backed t = list_all (\<lambda>e. getCallByUniqueId (db t) (fst e) \<noteq> None) (activeCalls t)"

text \<open>The order of the states the code assigns, and one move along it.\<close>

definition pipeline_order :: "string list" where
  "pipeline_order = [''started'', ''answered'', ''recording'', ''processing'']"

definition stays_or_advances :: "string \<Rightarrow> string \<Rightarrow> bool" where
  "stays_or_advances a b =
     (a \<in> set pipeline_order \<and> (a = b \<or> (a, b) \<in> set (zip pipeline_order (tl pipeline_order))))"

text \<open>
  The session index as the handlers keep it: one entry per channel id, each stored under
  the id of its own channel and in one of the four states; the pending flag is set only
  between the answer and the end of the prompt, and a recording name is present only from
  the start of the recording on.
\<close>

definition session_ok :: "string \<times> session \<Rightarrow> bool" where
  "session_ok e =
     (ch_id (s_channel (snd e)) = fst e \<and>
      state (snd e) \<in> set pipeline_order \<and>
      (pendingRecording (snd e) \<longrightarrow> state (snd e) = ''answered'' \<and> recordingName (snd e) = None) \<and>
      (recordingName (snd e) \<noteq> None \<longrightarrow>
         state (snd e) = ''recording'' \<or> state (snd e) = ''processing''))"

definition index_ok :: "(string, session) js_map \<Rightarrow> bool" where
  "index_ok m = (distinct (map fst m) \<and> list_all session_ok m)"

definition state_in :: "(string, session) js_map \<Rightarrow> string \<Rightarrow> string option" where
  "state_in m k = map_option state (Map_get k m)"

text \<open>The channel whose session an event creates, if it creates one.\<close>

fun started_by :: "ari_event \<Rightarrow> string option" where
  "started_by (StasisStart now chan answerOk playOk playbackId) = Some (ch_id chan)"
| "started_by (PlaybackFinished now recordingDuration playbackId recordOk) = None"
| "started_by (RecordingFinished now name goodbyeOk) = None"
| "started_by (StasisEnd chan) = None"

text \<open>The \<^verbatim>\<open>unique_id\<close>s that have a record.\<close>

definition call_keys :: "database \<Rightarrow> string set" where
  "call_keys d = set (map unique_id (calls d))"

section \<open>Sample inputs\<close>

text \<open>Concrete calls, events and channels on which the statements below are run.\<close>

definition sample_call :: callData where
  "sample_call = \<lparr>uniqueId = ''abc.1'', callerId = ''1001'', callerName = ''Alice'',
     destination = ''777'', channel = ''PJSIP/1001-00000001'', destChannel = None,
     callState = Some ''initiated''\<rparr>"

definition sample_event :: "string option \<Rightarrow> int option \<Rightarrow> string \<Rightarrow> string \<Rightarrow> ami_event" where
  "sample_event u st cause txt =
     \<lparr>ev_uniqueid = u, ev_channel = ''PJSIP/1001-00000001'', ev_calleridnum = ''1001'',
      ev_calleridname = ''Alice'', ev_exten = ''777'', ev_channelstate = st,
      ev_cause = cause, ev_cause_txt = txt\<rparr>"

definition new_tracker :: tracker where
  "new_tracker = \<lparr>db = empty_database, activeCalls = []\<rparr>"

definition sample_answered :: database where
  "sample_answered =
     fst (updateCallAnswered (fst (createCall empty_database 1000000 sample_call)) 1005000 ''abc.1'')"

definition sample_tracked :: tracker where
  "sample_tracked =
     fst (handleNewChannel new_tracker 1000000 (sample_event (Some ''abc.1'') (Some 0) [] []))"

definition sample_ended :: tracker where
  "sample_ended =
     fst (handleHangup sample_tracked 0 1007000 (sample_event (Some ''abc.1'') None ''16'' ''Normal Clearing''))"

definition sample_job :: database where
  "sample_job =
     (case createTranscription sample_answered 1010000 (Some 1)
             ''/var/spool/asterisk/recording/recording-ch1-1009000.wav'' of
        Inl e \<Rightarrow> sample_answered
      | Inr (d, transcriptionId) \<Rightarrow> d)"

definition sample_completed :: database where
  "sample_completed = fst (processRecording sample_job 1011000 1014000 7 1 None)"

definition sample_processing :: database where
  "sample_processing = fst (markAsProcessing sample_job 1011000 1)"


definition channel_A :: ari_channel where
  "channel_A = \<lparr>ch_id = ''1700000000.1'', ch_caller_number = ''1001'', ch_caller_name = ''Alice''\<rparr>"

definition channel_B :: ari_channel where
  "channel_B = \<lparr>ch_id = ''1700000000.2'', ch_caller_number = ''1002'', ch_caller_name = ''Bob''\<rparr>"

definition sample_prompting :: "(string, session) js_map" where
  "sample_prompting =
     fst (handleStasisStart (fst (handleStasisStart [] 1 channel_A True True ''pb-A''))
            2 channel_B True True ''pb-B'')"

definition sample_recording :: "(string, session) js_map" where
  "sample_recording =
     fst (handlePlaybackFinished (fst (handlePlaybackFinished sample_prompting 3 10 ''pb-A'' True))
            4 10 ''pb-B'' True)"

definition channel_C :: ari_channel where
  "channel_C = \<lparr>ch_id = ''1700000000.3'', ch_caller_number = ''1003'', ch_caller_name = ''Carol''\<rparr>"

definition sample_registered :: "(string, session) js_map" where
  "sample_registered = register_channel [] 1 channel_A"

definition sample_finished :: "(string, session) js_map" where
  "sample_finished =
     fst (handleRecordingFinished sample_recording empty_database 9
            ''recording-1700000000.1-3'' True)"

definition sample_ended_utc :: database where
  "sample_ended_utc =
     fst (updateCallEnded sample_answered 0 1007000 ''abc.1'' ''16'' ''Normal Clearing'')"

definition sample_ended_kolkata :: database where
  "sample_ended_kolkata =
     fst (updateCallEnded sample_answered 19800000 1007000 ''abc.1'' ''16'' ''Normal Clearing'')"


section \<open>Supporting lemmas\<close>

subsection \<open>Updates and lookups in a table\<close>

lemma find_sql_update:
  assumes "\<And>x. p (f x) = p x"
  shows "find p (sql_update p f rows) = map_option f (find p rows)"
  by (induction rows) (simp_all add: sql_update_def assms)

lemma find_other_sql_update:
  assumes "\<And>x. q (f x) = q x"
  shows "find q (sql_update p f rows) = map_option (\<lambda>r. if p r then f r else r) (find q rows)"
  by (induction rows) (simp_all add: sql_update_def assms)

lemma map_key_sql_update:
  assumes "\<And>x. k (f x) = k x"
  shows "map k (sql_update p f rows) = map k rows"
  by (induction rows) (simp_all add: sql_update_def assms)

lemma find_None_iff_key: "(find (\<lambda>r. k r = u) rows = None) = (u \<notin> set (map k rows))"
  by (induction rows) auto

lemma find_Some_key: "find (\<lambda>r. k r = u) rows = Some r \<Longrightarrow> u \<in> set (map k rows)"
  by (induction rows) (auto split: if_splits)

lemma distinct_filter_le1: "distinct (map k rows) \<Longrightarrow> length (filter (\<lambda>r. k r = u) rows) \<le> 1"
proof (induction rows)
  case Nil
  then show ?case by simp
next
  case (Cons r rows)
  show ?case
  proof (cases "k r = u")
    case True
    with Cons.prems have "u \<notin> set (map k rows)" by simp
    then have "filter (\<lambda>r. k r = u) rows = []" by (induction rows) auto
    with True show ?thesis by simp
  next
    case False
    with Cons show ?thesis by simp
  qed
qed

lemma createCall_existing:
  "getCallByUniqueId d (uniqueId cd) = Some row \<Longrightarrow> createCall d now cd = (d, Inr (Some (c_id row)))"
proof -
  assume "getCallByUniqueId d (uniqueId cd) = Some row"
  then have f: "find (\<lambda>r. unique_id r = uniqueId cd) (calls d) = Some row"
    by (simp add: getCallByUniqueId_def)
  then have "uniqueId cd \<in> set (map unique_id (calls d))" by (rule find_Some_key)
  then show ?thesis using f by (simp add: createCall_def insert_call_def getCallByUniqueId_def)
qed

lemma createCall_keys:
  "map unique_id (calls (fst (createCall d now cd))) =
     (if uniqueId cd \<in> set (map unique_id (calls d)) then map unique_id (calls d)
      else map unique_id (calls d) @ [uniqueId cd])"
  by (simp add: createCall_def insert_call_def)

lemma updateCallAnswered_keys: "map unique_id (calls (fst (updateCallAnswered d now u))) = map unique_id (calls d)"
  by (simp add: updateCallAnswered_def map_key_sql_update)

lemma updateCallEnded_keys: "map unique_id (calls (fst (updateCallEnded d zone now u c txt))) = map unique_id (calls d)"
  by (simp add: updateCallEnded_def map_key_sql_update Let_def split: option.splits)

lemma updateCallState_keys: "map unique_id (calls (fst (updateCallState d now u s))) = map unique_id (calls d)"
  by (simp add: updateCallState_def map_key_sql_update)

lemma apply_call_op_distinct:
  "distinct (map unique_id (calls d)) \<Longrightarrow> distinct (map unique_id (calls (apply_call_op d op)))"
  by (cases op) (simp_all add: createCall_keys updateCallAnswered_keys updateCallEnded_keys updateCallState_keys)

lemma foldl_call_ops_distinct:
  "distinct (map unique_id (calls d)) \<Longrightarrow> distinct (map unique_id (calls (foldl apply_call_op d ops)))"
  by (induction ops arbitrary: d) (simp_all add: apply_call_op_distinct)

lemma updateCallEnded_record:
  assumes "getCallByUniqueId d u = Some call"
  shows "getCallByUniqueId (fst (updateCallEnded d zone now u cause txt)) u =
     Some (call\<lparr>end_time := Some (datetime_now now),
                 duration_seconds :=
                   Some (case answer_time call of
                           None \<Rightarrow> 0
                         | Some a \<Rightarrow> (now - Date_of zone a) div 1000),
                 hangup_cause := Some cause,
                 hangup_cause_txt := Some txt,
                 call_state := Some ''ended'',
                 c_updated_at := Some (datetime_now now)\<rparr>)"
  using assms
  by (simp add: updateCallEnded_def getCallByUniqueId_def find_sql_update Let_def)

lemma duration_on_utc_host: "(now - Date_of 0 a) div 1000 = datetime_now now - a"
  by (simp add: Date_of_def datetime_now_def)

lemma duration_off_by_zone: "(now - Date_of zone a) div 1000 = datetime_now (now + zone) - a"
  by (simp add: Date_of_def datetime_now_def algebra_simps)

subsection \<open>The tracker's cache and the store\<close>

lemma getCall_None_iff: "(getCallByUniqueId d u = None) = (u \<notin> call_keys d)"
  unfolding getCallByUniqueId_def call_keys_def by (rule find_None_iff_key)

lemma call_keys_createCall: "call_keys (fst (createCall d now cd)) = insert (uniqueId cd) (call_keys d)"
  unfolding call_keys_def createCall_keys by auto

lemma call_keys_updateCallAnswered: "call_keys (fst (updateCallAnswered d now u)) = call_keys d"
  unfolding call_keys_def updateCallAnswered_keys ..

lemma call_keys_updateCallEnded: "call_keys (fst (updateCallEnded d zone now u c txt)) = call_keys d"
  unfolding call_keys_def updateCallEnded_keys ..

lemma call_keys_logCallEvent: "logCallEvent d now i ty ev = Inr d' \<Longrightarrow> call_keys d' = call_keys d"
  by (auto simp: logCallEvent_def call_keys_def split: option.splits)

lemma updateCallEnded_unknown:
  "getCallByUniqueId d u = None \<Longrightarrow>
     updateCallEnded d zone now u c txt = (d, False, [(Warn, ''Call not found for hangup'')])"
  by (simp add: updateCallEnded_def)

lemma cache_backed_iff:
  "cache_backed t = (fst ` set (activeCalls t) \<subseteq> call_keys (db t))"
  by (auto simp: cache_backed_def list_all_iff getCall_None_iff)

lemma Map_get_None_iff: "(Map_get k m = None) = (k \<notin> fst ` set m)"
  by (simp add: Map_get_def map_of_eq_None_iff)

lemma keys_Map_set: "fst ` set (Map_set k v m) = insert k (fst ` set m)"
  by (induction m) auto

lemma keys_Map_delete: "fst ` set (Map_delete k m) \<subseteq> fst ` set m"
  by (auto simp: Map_delete_def)

lemma cache_backed_new: "cache_backed new_tracker"
  by (simp add: cache_backed_def new_tracker_def)

lemma handleNewChannel_keys:
  "call_keys (db t) \<subseteq> call_keys (db (fst (handleNewChannel t now event))) \<and>
   fst ` set (activeCalls (fst (handleNewChannel t now event)))
     \<subseteq> fst ` set (activeCalls t) \<union> call_keys (db (fst (handleNewChannel t now event)))"
proof (cases "ev_uniqueid event = None \<or> ev_uniqueid event = Some []")
  case True
  then show ?thesis by (auto simp: handleNewChannel_def)
next
  case False
  then obtain u where u: "ev_uniqueid event = Some u" "u \<noteq> []" by auto
  define cd where "cd = \<lparr>uniqueId = u, callerId = ev_calleridnum event,
                       callerName = ev_calleridname event, destination = ev_exten event,
                       channel = ev_channel event, destChannel = None,
                       callState = Some ''initiated''\<rparr>"
  obtain d1 res where cc: "createCall (db t) now cd = (d1, res)" by (cases "createCall (db t) now cd")
  have "call_keys (fst (createCall (db t) now cd)) = insert (uniqueId cd) (call_keys (db t))"
    by (rule call_keys_createCall)
  with cc have k1: "call_keys d1 = insert u (call_keys (db t))" by (simp add: cd_def)
  show ?thesis
  proof (cases res)
    case (Inl e)
    with u cc k1 show ?thesis by (auto simp: handleNewChannel_def cd_def [symmetric])
  next
    case (Inr callId)
    show ?thesis
    proof (cases "logCallEvent d1 now callId ''newchannel'' event")
      case (Inl e)
      with u cc k1 \<open>res = Inr callId\<close> show ?thesis
        by (auto simp: handleNewChannel_def cd_def [symmetric] keys_Map_set)
    next
      case (Inr d2)
      then have "call_keys d2 = call_keys d1" by (rule call_keys_logCallEvent)
      with Inr u cc k1 \<open>res = Inr callId\<close> show ?thesis
        by (auto simp: handleNewChannel_def cd_def [symmetric] keys_Map_set)
    qed
  qed
qed

lemma cache_backed_handleNewChannel:
  assumes "cache_backed t" shows "cache_backed (fst (handleNewChannel t now event))"
  using assms handleNewChannel_keys [of t now event] unfolding cache_backed_iff by blast

lemma handleNewState_keys:
  "call_keys (db (fst (handleNewState t now event))) = call_keys (db t) \<and>
   activeCalls (fst (handleNewState t now event)) = activeCalls t"
proof (cases "ev_channelstate event = Some 6")
  case False
  then show ?thesis by (simp add: handleNewState_def)
next
  case six: True
  show ?thesis
  proof (cases "ev_uniqueid event")
    case None
    with six show ?thesis by (simp add: handleNewState_def)
  next
    case (Some u)
    define d1 where "d1 = fst (updateCallAnswered (db t) now u)"
    have k: "call_keys d1 = call_keys (db t)"
      unfolding d1_def by (rule call_keys_updateCallAnswered)
    show ?thesis
    proof (cases "Map_get u (activeCalls t)")
      case None
      with six Some k show ?thesis by (simp add: handleNewState_def d1_def [symmetric])
    next
      case call: (Some call)
      show ?thesis
      proof (cases "logCallEvent d1 now (ac_id call) ''answered'' event")
        case (Inl e)
        with six Some call k show ?thesis by (simp add: handleNewState_def d1_def [symmetric])
      next
        case (Inr d2)
        then have "call_keys d2 = call_keys d1" by (rule call_keys_logCallEvent)
        with Inr six Some call k show ?thesis by (simp add: handleNewState_def d1_def [symmetric])
      qed
    qed
  qed
qed

lemma cache_backed_handleNewState:
  assumes "cache_backed t" shows "cache_backed (fst (handleNewState t now event))"
  using assms by (simp add: cache_backed_iff handleNewState_keys)

lemma handleHangup_keys:
  "call_keys (db (fst (handleHangup t zone now event))) = call_keys (db t) \<and>
   fst ` set (activeCalls (fst (handleHangup t zone now event))) \<subseteq> fst ` set (activeCalls t)"
proof (cases "ev_uniqueid event")
  case None
  then show ?thesis by (simp add: handleHangup_def)
next
  case (Some u)
  obtain d1 ch lg where ue: "updateCallEnded (db t) zone now u (ev_cause event) (ev_cause_txt event) = (d1, ch, lg)"
    by (cases "updateCallEnded (db t) zone now u (ev_cause event) (ev_cause_txt event)") auto
  have "call_keys (fst (updateCallEnded (db t) zone now u (ev_cause event) (ev_cause_txt event))) = call_keys (db t)"
    by (rule call_keys_updateCallEnded)
  with ue have k: "call_keys d1 = call_keys (db t)" by simp
  show ?thesis
  proof (cases "Map_get u (activeCalls t)")
    case None
    with Some ue k show ?thesis by (simp add: handleHangup_def)
  next
    case (Some call)
    show ?thesis
    proof (cases "logCallEvent d1 now (ac_id call) ''hangup'' event")
      case (Inl e)
      with Some \<open>ev_uniqueid event = Some u\<close> ue k show ?thesis by (simp add: handleHangup_def)
    next
      case (Inr d2)
      then have "call_keys d2 = call_keys d1" by (rule call_keys_logCallEvent)
      with Inr Some \<open>ev_uniqueid event = Some u\<close> ue k keys_Map_delete [of u "activeCalls t"]
      show ?thesis by (simp add: handleHangup_def)
    qed
  qed
qed

lemma cache_backed_handleHangup:
  assumes "cache_backed t" shows "cache_backed (fst (handleHangup t zone now event))"
  using assms handleHangup_keys [of t zone now event] unfolding cache_backed_iff by blast

subsection \<open>The state of a call record under the tracker's handlers\<close>

lemma find_Some_holds: "find p rows = Some r \<Longrightarrow> p r"
  by (induction rows) (auto split: if_splits)

lemma state_of_updateCallAnswered:
  "state_of (fst (updateCallAnswered d now u)) u' =
     (if u' = u \<and> getCallByUniqueId d u \<noteq> None then Some ''answered'' else state_of d u')"
proof (cases "u' = u")
  case True
  then show ?thesis
    by (cases "find (\<lambda>r. unique_id r = u) (calls d)")
       (simp_all add: state_of_def getCallByUniqueId_def updateCallAnswered_def find_sql_update)
next
  case False
  show ?thesis
  proof (cases "find (\<lambda>r. unique_id r = u') (calls d)")
    case None
    with False show ?thesis
      by (simp add: state_of_def getCallByUniqueId_def updateCallAnswered_def find_other_sql_update)
  next
    case (Some a)
    then have "unique_id a = u'" by (rule find_Some_holds)
    with False Some show ?thesis
      by (simp add: state_of_def getCallByUniqueId_def updateCallAnswered_def find_other_sql_update)
  qed
qed

lemma state_of_updateCallEnded:
  "state_of (fst (updateCallEnded d zone now u c txt)) u' =
     (if u' = u \<and> getCallByUniqueId d u \<noteq> None then Some ''ended'' else state_of d u')"
proof (cases "find (\<lambda>r. unique_id r = u) (calls d)")
  case None
  then show ?thesis by (simp add: state_of_def getCallByUniqueId_def updateCallEnded_def)
next
  case call: (Some call)
  show ?thesis
  proof (cases "u' = u")
    case True
    with call show ?thesis
      by (simp add: state_of_def getCallByUniqueId_def updateCallEnded_def find_sql_update Let_def)
  next
    case False
    show ?thesis
    proof (cases "find (\<lambda>r. unique_id r = u') (calls d)")
      case None
      with False call show ?thesis
        by (simp add: state_of_def getCallByUniqueId_def updateCallEnded_def
              find_other_sql_update Let_def)
    next
      case (Some a)
      then have "unique_id a = u'" by (rule find_Some_holds)
      with False Some call show ?thesis
        by (simp add: state_of_def getCallByUniqueId_def updateCallEnded_def
              find_other_sql_update Let_def)
    qed
  qed
qed

lemma state_of_logCallEvent:
  "logCallEvent d now i ty ev = Inr d' \<Longrightarrow> state_of d' u = state_of d u"
  by (auto simp: logCallEvent_def state_of_def getCallByUniqueId_def split: option.splits)

lemma handleNewState_state:
  "state_of (db (fst (handleNewState t now event))) u =
     (if ev_channelstate event = Some 6 \<and> ev_uniqueid event = Some u \<and>
         getCallByUniqueId (db t) u \<noteq> None
      then Some ''answered'' else state_of (db t) u)"
proof (cases "ev_channelstate event = Some 6")
  case False
  then show ?thesis by (simp add: handleNewState_def)
next
  case six: True
  show ?thesis
  proof (cases "ev_uniqueid event")
    case None
    with six show ?thesis by (simp add: handleNewState_def)
  next
    case (Some v)
    define d1 where "d1 = fst (updateCallAnswered (db t) now v)"
    have k: "state_of d1 u =
       (if u = v \<and> getCallByUniqueId (db t) v \<noteq> None then Some ''answered'' else state_of (db t) u)"
      unfolding d1_def by (rule state_of_updateCallAnswered)
    show ?thesis
    proof (cases "Map_get v (activeCalls t)")
      case None
      with six Some k show ?thesis by (auto simp: handleNewState_def d1_def [symmetric])
    next
      case call: (Some call)
      show ?thesis
      proof (cases "logCallEvent d1 now (ac_id call) ''answered'' event")
        case (Inl e)
        with six Some call k show ?thesis by (auto simp: handleNewState_def d1_def [symmetric])
      next
        case (Inr d2)
        then have "state_of d2 u = state_of d1 u" by (rule state_of_logCallEvent)
        with Inr six Some call k show ?thesis by (auto simp: handleNewState_def d1_def [symmetric])
      qed
    qed
  qed
qed

lemma handleHangup_state:
  "state_of (db (fst (handleHangup t zone now event))) u =
     (if ev_uniqueid event = Some u \<and> getCallByUniqueId (db t) u \<noteq> None
      then Some ''ended'' else state_of (db t) u)"
proof (cases "ev_uniqueid event")
  case None
  then show ?thesis by (simp add: handleHangup_def)
next
  case (Some v)
  obtain d1 ch lg where ue:
    "updateCallEnded (db t) zone now v (ev_cause event) (ev_cause_txt event) = (d1, ch, lg)"
    by (cases "updateCallEnded (db t) zone now v (ev_cause event) (ev_cause_txt event)") auto
  have "state_of (fst (updateCallEnded (db t) zone now v (ev_cause event) (ev_cause_txt event))) u =
       (if u = v \<and> getCallByUniqueId (db t) v \<noteq> None then Some ''ended'' else state_of (db t) u)"
    by (rule state_of_updateCallEnded)
  with ue have k: "state_of d1 u =
       (if u = v \<and> getCallByUniqueId (db t) v \<noteq> None then Some ''ended'' else state_of (db t) u)"
    by simp
  show ?thesis
  proof (cases "Map_get v (activeCalls t)")
    case None
    with Some ue k show ?thesis by (auto simp: handleHangup_def)
  next
    case call: (Some call)
    show ?thesis
    proof (cases "logCallEvent d1 now (ac_id call) ''hangup'' event")
      case (Inl e)
      with call Some ue k show ?thesis by (auto simp: handleHangup_def)
    next
      case (Inr d2)
      then have "state_of d2 u = state_of d1 u" by (rule state_of_logCallEvent)
      with Inr call Some ue k show ?thesis by (auto simp: handleHangup_def)
    qed
  qed
qed

subsection \<open>The status of a transcription job\<close>

lemma status_of_sql_update:
  assumes "\<And>x. t_id (f x) = t_id x" and "\<And>x. transcription_status (f x) = s"
  shows "(case find (\<lambda>t. t_id t = j) (sql_update (\<lambda>t. t_id t = i) f rows) of
            None \<Rightarrow> None | Some t \<Rightarrow> transcription_status t) =
         (if j = i \<and> find (\<lambda>t. t_id t = i) rows \<noteq> None then s
          else (case find (\<lambda>t. t_id t = j) rows of None \<Rightarrow> None | Some t \<Rightarrow> transcription_status t))"
proof (cases "find (\<lambda>t. t_id t = j) rows")
  case None
  then show ?thesis by (auto simp: find_other_sql_update assms)
next
  case (Some a)
  then have "t_id a = j" by (rule find_Some_holds)
  with Some show ?thesis by (auto simp: find_other_sql_update assms)
qed

lemma status_of_markAsProcessing:
  "status_of (fst (markAsProcessing d now i)) j =
     (if j = i \<and> getTranscriptionById d i \<noteq> None then Some ''processing'' else status_of d j)"
  unfolding status_of_def getTranscriptionById_def markAsProcessing_def
  by (simp add: status_of_sql_update)

lemma status_of_completeTranscription:
  "status_of (fst (completeTranscription d now i txt)) j =
     (if j = i \<and> getTranscriptionById d i \<noteq> None then Some ''completed'' else status_of d j)"
  unfolding status_of_def getTranscriptionById_def completeTranscription_def
  by (simp add: status_of_sql_update)

lemma status_of_failTranscription:
  "status_of (fst (failTranscription d now i msg)) j =
     (if j = i \<and> getTranscriptionById d i \<noteq> None then Some ''failed'' else status_of d j)"
  unfolding status_of_def getTranscriptionById_def failTranscription_def
  by (simp add: status_of_sql_update)

lemma getTranscriptionById_markAsProcessing:
  "(getTranscriptionById (fst (markAsProcessing d now i)) j = None) = (getTranscriptionById d j = None)"
  unfolding getTranscriptionById_def markAsProcessing_def
  by (simp add: find_other_sql_update)

lemma status_of_processRecording:
  "status_of (fst (processRecording d nowStart nowEnd draw i path)) j =
     (if j = i \<and> getTranscriptionById d i \<noteq> None then Some ''completed'' else status_of d j)"
  unfolding processRecording_def Let_def
  by (auto simp: status_of_completeTranscription status_of_markAsProcessing
        getTranscriptionById_markAsProcessing)

lemma retryFailed_raises: "retryFailed d env = (d, Inl (TypeError ''pending is not iterable''))"
  by (simp add: retryFailed_def for_of_def)

subsection \<open>Reconnect attempts that fail in a row\<close>




lemma scheduleReconnect_first:
  assumes "shouldReconnect s" and "reconnectAttempts s = 0" and "maxReconnectAttempts s = 0 \<or> 0 < maxReconnectAttempts s"
  shows "scheduleReconnect s = (s\<lparr>reconnectAttempts := 1, reconnectTimer := True\<rparr>, [])"
  using assms by (auto simp: scheduleReconnect_def)






subsection \<open>Maps as association lists\<close>

lemma Map_get_Map_modify:
  "Map_get k (Map_modify k' f m) = (if k = k' then map_option f (Map_get k m) else Map_get k m)"
  by (induction m) (auto simp: Map_get_def Map_modify_def)

lemma Map_get_Map_set:
  "Map_get k (Map_set k' v m) = (if k = k' then Some v else Map_get k m)"
  by (induction m) (auto simp: Map_get_def)

lemma Map_get_Map_delete:
  "Map_get k (Map_delete k' m) = (if k = k' then None else Map_get k m)"
  by (induction m) (auto simp: Map_get_def Map_delete_def)

lemma keys_Map_modify: "map fst (Map_modify k f m) = map fst m"
  by (induction m) (auto simp: Map_modify_def)

lemma map_fst_Map_set:
  "map fst (Map_set k v m) = (if k \<in> fst ` set m then map fst m else map fst m @ [k])"
  by (induction m) auto

lemma distinct_Map_set: "distinct (map fst m) \<Longrightarrow> distinct (map fst (Map_set k v m))"
  by (simp add: map_fst_Map_set)

lemma distinct_Map_delete: "distinct (map fst m) \<Longrightarrow> distinct (map fst (Map_delete k m))"
  by (simp add: Map_delete_def distinct_map_filter)

lemma Map_get_member: "distinct (map fst m) \<Longrightarrow> (k, v) \<in> set m \<Longrightarrow> Map_get k m = Some v"
  by (simp add: Map_get_def)

lemma Map_get_Some_member: "Map_get k m = Some v \<Longrightarrow> (k, v) \<in> set m"
  by (simp add: Map_get_def map_of_SomeD)

lemma find_Some_member: "find p rows = Some r \<Longrightarrow> r \<in> set rows"
  by (induction rows) (auto split: if_splits)

lemma find_unique:
  assumes "x \<in> set xs" and "p x" and "\<forall>y \<in> set xs. p y \<longrightarrow> y = x"
  shows "find p xs = Some x"
  using assms
proof (induction xs)
  case Nil
  then show ?case by simp
next
  case (Cons a xs)
  show ?case
  proof (cases "p a")
    case True
    with Cons.prems(3) have "a = x" by simp
    with True show ?thesis by simp
  next
    case False
    with Cons.prems have "x \<in> set xs" by auto
    moreover from Cons.prems(3) have "\<forall>y \<in> set xs. p y \<longrightarrow> y = x" by simp
    ultimately have "find p xs = Some x" using Cons.prems(2) by (intro Cons.IH)
    with False show ?thesis by simp
  qed
qed

lemma list_all_Map_modify:
  "list_all q m \<Longrightarrow> (\<And>v. q (k, v) \<Longrightarrow> q (k, f v)) \<Longrightarrow> list_all q (Map_modify k f m)"
  by (induction m) (auto simp: Map_modify_def)

lemma list_all_Map_set:
  "list_all q m \<Longrightarrow> q (k, v) \<Longrightarrow> list_all q (Map_set k v m)"
  by (induction m) auto

lemma list_all_Map_delete: "list_all q m \<Longrightarrow> list_all q (Map_delete k m)"
  by (simp add: Map_delete_def list_all_iff)

subsection \<open>The session index under the orchestrator's handlers\<close>

lemma Map_modify_absent: "k \<notin> fst ` set m \<Longrightarrow> Map_modify k f m = m"
  by (induction m) (auto simp: Map_modify_def)

lemma Map_modify_Map_set:
  "distinct (map fst m) \<Longrightarrow> Map_modify k f (Map_set k v m) = Map_set k (f v) m"
proof (induction m)
  case Nil
  then show ?case by (simp add: Map_modify_def)
next
  case (Cons e m)
  show ?case
  proof (cases "fst e = k")
    case True
    with Cons.prems have "k \<notin> fst ` set m" by auto
    then have "Map_modify k f m = m" by (rule Map_modify_absent)
    with True show ?thesis by (simp add: Map_modify_def)
  next
    case False
    from Cons.prems have "distinct (map fst m)" by simp
    then have "Map_modify k f (Map_set k v m) = Map_set k (f v) m" by (rule Cons.IH)
    with False show ?thesis by (simp add: Map_modify_def)
  qed
qed

lemma Map_modify_twice: "Map_modify k f (Map_modify k g m) = Map_modify k (\<lambda>v. f (g v)) m"
  by (induction m) (auto simp: Map_modify_def)

lemma list_all_Map_modify_entry:
  assumes "list_all q m" and "distinct (map fst m)" and "(k, d) \<in> set m" and "q (k, f d)"
  shows "list_all q (Map_modify k f m)"
proof -
  have "q (if fst e = k then (fst e, f (snd e)) else e)" if e: "e \<in> set m" for e
  proof (cases "fst e = k")
    case True
    with e have "(k, snd e) \<in> set m" by (metis prod.collapse)
    with assms(2,3) have "snd e = d" by (meson eq_key_imp_eq_value)
    with True assms(4) show ?thesis by simp
  next
    case False
    with e assms(1) show ?thesis by (simp add: list_all_iff)
  qed
  note step = this
  have "q x" if "x \<in> set (Map_modify k f m)" for x
  proof -
    from that have "x \<in> (\<lambda>e. if fst e = k then (fst e, f (snd e)) else e) ` set m"
      unfolding Map_modify_def by (simp only: set_map)
    then obtain e where "e \<in> set m" and "x = (if fst e = k then (fst e, f (snd e)) else e)"
      by (rule imageE)
    with step [of e] show ?thesis by simp
  qed
  then show ?thesis by (simp add: list_all_iff)
qed

text \<open>What each handler does to the index.\<close>

lemma handleStasisStart_index:
  assumes "distinct (map fst m)"
  shows "fst (handleStasisStart m now chan answerOk playOk playbackId) =
     Map_set (ch_id chan)
       \<lparr>s_channel = chan, s_callerId = ch_caller_number chan,
        s_callerName = ch_caller_name chan, startTime = now,
        state = (if answerOk then ''answered'' else ''started''),
        currentPlayback = (if answerOk then Some playbackId else None),
        pendingRecording = answerOk, recordingName = None\<rparr> m"
proof (cases answerOk)
  case False
  then show ?thesis by (simp add: handleStasisStart_def register_channel_def)
next
  case True
  then show ?thesis
    using assms
    by (simp add: handleStasisStart_def register_channel_def mark_answered_def playPrompt_def
          Map_modify_Map_set Map_get_Map_set distinct_Map_set)
qed

lemma find_playback_entry:
  assumes "find_playback m playbackId = Some (k, data)"
  shows "(k, data) \<in> set m \<and> currentPlayback data = Some playbackId \<and> pendingRecording data"
proof -
  from assms have f: "find (\<lambda>e. currentPlayback (snd e) = Some playbackId \<and> pendingRecording (snd e)) m = Some (k, data)"
    by (simp add: find_playback_def)
  from find_Some_member [OF f] find_Some_holds [OF f] show ?thesis by simp
qed

lemma find_recording_entry:
  assumes "find_recording m name = Some (k, data)"
  shows "(k, data) \<in> set m \<and> recordingName data = Some name"
proof -
  from assms have f: "find (\<lambda>e. recordingName (snd e) = Some name) m = Some (k, data)"
    by (simp add: find_recording_def)
  from find_Some_member [OF f] find_Some_holds [OF f] show ?thesis by simp
qed

lemma index_ok_entry:
  "index_ok m \<Longrightarrow> (k, d) \<in> set m \<Longrightarrow> session_ok (k, d) \<and> Map_get k m = Some d"
  by (auto simp: index_ok_def list_all_iff Map_get_member)

lemma handlePlaybackFinished_index:
  assumes "index_ok m"
  shows "fst (handlePlaybackFinished m now recordingDuration playbackId recordOk) =
     (case find_playback m playbackId of
        None \<Rightarrow> m
      | Some (k, data) \<Rightarrow>
          Map_modify k
            (\<lambda>d. d\<lparr>pendingRecording := False,
                   recordingName := Some (''recording-'' @ k @ ''-'' @ String_of now),
                   state := ''recording''\<rparr>) m)"
proof (cases "find_playback m playbackId")
  case None
  then show ?thesis by (simp add: handlePlaybackFinished_def)
next
  case (Some e)
  obtain k data where e: "e = (k, data)" by (cases e)
  with Some have f: "find_playback m playbackId = Some (k, data)" by simp
  then have mem: "(k, data) \<in> set m" by (simp add: find_playback_entry)
  with assms have ok: "session_ok (k, data)" and g: "Map_get k m = Some data"
    by (simp_all add: index_ok_entry)
  from ok have c: "ch_id (s_channel data) = k" by (simp add: session_ok_def)
  show ?thesis
    using f c g
    by (simp add: handlePlaybackFinished_def startRecording_def Map_get_Map_modify
          Map_modify_twice Let_def)
qed

lemma handleRecordingFinished_index:
  "fst (handleRecordingFinished m d now name goodbyeOk) =
     (case find_recording m name of
        None \<Rightarrow> m
      | Some (k, data) \<Rightarrow> Map_modify k (\<lambda>x. x\<lparr>state := ''processing''\<rparr>) m)"
  by (simp add: handleRecordingFinished_def Let_def split: option.splits prod.splits)

lemma index_ok_handleStasisStart:
  assumes "index_ok m"
  shows "index_ok (fst (handleStasisStart m now chan answerOk playOk playbackId))"
proof -
  from assms have d: "distinct (map fst m)" and a: "list_all session_ok m"
    by (simp_all add: index_ok_def)
  show ?thesis
    unfolding handleStasisStart_index [OF d] index_ok_def
    using d a
    by (intro conjI distinct_Map_set list_all_Map_set)
       (simp_all add: session_ok_def pipeline_order_def)
qed

lemma index_ok_handlePlaybackFinished:
  assumes "index_ok m"
  shows "index_ok (fst (handlePlaybackFinished m now recordingDuration playbackId recordOk))"
proof (cases "find_playback m playbackId")
  case None
  with assms show ?thesis by (simp add: handlePlaybackFinished_index)
next
  case (Some e)
  obtain k data where e: "e = (k, data)" by (cases e)
  with Some have f: "find_playback m playbackId = Some (k, data)" by simp
  then have mem: "(k, data) \<in> set m" by (simp add: find_playback_entry)
  with assms have ok: "session_ok (k, data)" by (simp add: index_ok_entry)
  from assms have d: "distinct (map fst m)" and a: "list_all session_ok m"
    by (simp_all add: index_ok_def)
  let ?F = "\<lambda>d. d\<lparr>pendingRecording := False,
                   recordingName := Some (''recording-'' @ k @ ''-'' @ String_of now),
                   state := ''recording''\<rparr>"
  from ok have "session_ok (k, ?F data)" by (simp add: session_ok_def pipeline_order_def)
  with a d mem have "list_all session_ok (Map_modify k ?F m)"
    by (intro list_all_Map_modify_entry)
  with d show ?thesis
    by (simp add: handlePlaybackFinished_index [OF assms] f index_ok_def keys_Map_modify)
qed

lemma index_ok_handleRecordingFinished:
  assumes "index_ok m"
  shows "index_ok (fst (handleRecordingFinished m d now name goodbyeOk))"
proof (cases "find_recording m name")
  case None
  with assms show ?thesis by (simp add: handleRecordingFinished_index)
next
  case (Some e)
  obtain k data where e: "e = (k, data)" by (cases e)
  with Some have f: "find_recording m name = Some (k, data)" by simp
  then have mem: "(k, data) \<in> set m" and r: "recordingName data = Some name"
    by (simp_all add: find_recording_entry)
  with assms have ok: "session_ok (k, data)" by (simp add: index_ok_entry)
  from assms have d: "distinct (map fst m)" and a: "list_all session_ok m"
    by (simp_all add: index_ok_def)
  from ok r have "session_ok (k, data\<lparr>state := ''processing''\<rparr>)"
    by (auto simp: session_ok_def pipeline_order_def)
  with a d mem have "list_all session_ok (Map_modify k (\<lambda>x. x\<lparr>state := ''processing''\<rparr>) m)"
    by (intro list_all_Map_modify_entry)
  with d show ?thesis
    by (simp add: handleRecordingFinished_index f index_ok_def keys_Map_modify)
qed

lemma index_ok_handleStasisEnd:
  assumes "index_ok m"
  shows "index_ok (fst (handleStasisEnd m chan))"
  using assms by (simp add: handleStasisEnd_def index_ok_def distinct_Map_delete list_all_Map_delete)

lemma index_ok_ari_step:
  assumes "index_ok m"
  shows "index_ok (fst (ari_step (m, d) e))"
  using assms
  by (cases e)
     (simp_all add: index_ok_handleStasisStart index_ok_handlePlaybackFinished
        index_ok_handleRecordingFinished index_ok_handleStasisEnd split: prod.splits,
      metis fst_conv index_ok_handleRecordingFinished)

lemma playback_changes_holder:
  assumes "index_ok m" and "Map_get k m = Some d"
    and "Map_get k (fst (handlePlaybackFinished m now recordingDuration playbackId recordOk)) \<noteq> Some d"
  shows "find_playback m playbackId = Some (k, d)"
proof (cases "find_playback m playbackId")
  case None
  with assms show ?thesis by (simp add: handlePlaybackFinished_index)
next
  case (Some e)
  obtain k0 data where e: "e = (k0, data)" by (cases e)
  with Some have f: "find_playback m playbackId = Some (k0, data)" by simp
  then have "(k0, data) \<in> set m" by (simp add: find_playback_entry)
  with assms(1) have g: "Map_get k0 m = Some data" by (simp add: index_ok_entry)
  from assms(2,3) have "k = k0"
    by (auto simp: handlePlaybackFinished_index [OF assms(1)] f Map_get_Map_modify split: if_splits)
  with g assms(2) f show ?thesis by simp
qed

lemma recording_changes_holder:
  assumes "index_ok m" and "Map_get k m = Some d"
    and "Map_get k (fst (handleRecordingFinished m db0 now name goodbyeOk)) \<noteq> Some d"
  shows "find_recording m name = Some (k, d)"
proof (cases "find_recording m name")
  case None
  with assms show ?thesis by (simp add: handleRecordingFinished_index)
next
  case (Some e)
  obtain k0 data where e: "e = (k0, data)" by (cases e)
  with Some have f: "find_recording m name = Some (k0, data)" by simp
  then have "(k0, data) \<in> set m" by (simp add: find_recording_entry)
  with assms(1) have g: "Map_get k0 m = Some data" by (simp add: index_ok_entry)
  from assms(2,3) have "k = k0"
    by (auto simp: handleRecordingFinished_index f Map_get_Map_modify split: if_splits)
  with g assms(2) f show ?thesis by simp
qed

lemma state_in_ok:
  assumes "index_ok m" and "state_in m k = Some s"
  shows "s \<in> set pipeline_order"
proof -
  from assms(2) obtain d where g: "Map_get k m = Some d" and s: "s = state d"
    by (auto simp: state_in_def)
  from g have "(k, d) \<in> set m" by (rule Map_get_Some_member)
  with assms(1) have "session_ok (k, d)" by (simp add: index_ok_entry)
  with s show ?thesis by (simp add: session_ok_def)
qed

lemma stays_or_advances_refl: "s \<in> set pipeline_order \<Longrightarrow> stays_or_advances s s"
  by (simp add: stays_or_advances_def)

lemma step_in_order:
  assumes ok: "index_ok m" and s: "state_in m k = Some s"
    and s': "state_in (fst (ari_step (m, d) e)) k = Some s'"
    and ns: "started_by e \<noteq> Some k"
  shows "stays_or_advances s s'"
proof -
  from ok s have mem: "s \<in> set pipeline_order" by (rule state_in_ok)
  from ok have dist: "distinct (map fst m)" by (simp add: index_ok_def)
  show ?thesis
  proof (cases e)
    case (StasisStart now chan answerOk playOk playbackId)
    with ns have "k \<noteq> ch_id chan" by auto
    with StasisStart s s' have "s' = s"
      by (auto simp: handleStasisStart_index [OF dist] state_in_def Map_get_Map_set)
    with mem show ?thesis by (simp add: stays_or_advances_refl)
  next
    case (PlaybackFinished now recordingDuration playbackId recordOk)
    show ?thesis
    proof (cases "find_playback m playbackId")
      case None
      with PlaybackFinished s s' ok have "s' = s" by (auto simp: handlePlaybackFinished_index)
      with mem show ?thesis by (simp add: stays_or_advances_refl)
    next
      case (Some x)
      obtain k0 data where "x = (k0, data)" by (cases x)
      with Some have f: "find_playback m playbackId = Some (k0, data)" by simp
      then have e: "(k0, data) \<in> set m" and p: "pendingRecording data"
        by (simp_all add: find_playback_entry)
      from ok e have so: "session_ok (k0, data)" and g: "Map_get k0 m = Some data"
        by (simp_all add: index_ok_entry)
      show ?thesis
      proof (cases "k = k0")
        case True
        with s g have "s = state data" by (auto simp: state_in_def)
        with so p have a: "s = ''answered''" by (simp add: session_ok_def)
        from True PlaybackFinished s' g have "s' = ''recording''"
          by (auto simp: handlePlaybackFinished_index [OF ok] f state_in_def Map_get_Map_modify)
        with a show ?thesis by (simp add: stays_or_advances_def pipeline_order_def)
      next
        case False
        with PlaybackFinished s s' have "s' = s"
          by (auto simp: handlePlaybackFinished_index [OF ok] f state_in_def Map_get_Map_modify)
        with mem show ?thesis by (simp add: stays_or_advances_refl)
      qed
    qed
  next
    case (RecordingFinished now name goodbyeOk)
    have st: "fst (ari_step (m, d) e) = fst (handleRecordingFinished m d now name goodbyeOk)"
      unfolding RecordingFinished by (simp split: prod.splits)
    show ?thesis
    proof (cases "find_recording m name")
      case None
      with st s s' have "s' = s" by (auto simp: handleRecordingFinished_index)
      with mem show ?thesis by (simp add: stays_or_advances_refl)
    next
      case (Some x)
      obtain k0 data where "x = (k0, data)" by (cases x)
      with Some have f: "find_recording m name = Some (k0, data)" by simp
      then have e: "(k0, data) \<in> set m" and r: "recordingName data = Some name"
        by (simp_all add: find_recording_entry)
      from ok e have so: "session_ok (k0, data)" and g: "Map_get k0 m = Some data"
        by (simp_all add: index_ok_entry)
      show ?thesis
      proof (cases "k = k0")
        case True
        with s g have "s = state data" by (auto simp: state_in_def)
        with so r have a: "s = ''recording'' \<or> s = ''processing''" by (simp add: session_ok_def)
        from True st s' g have "s' = ''processing''"
          by (auto simp: handleRecordingFinished_index f state_in_def Map_get_Map_modify)
        with a show ?thesis by (auto simp: stays_or_advances_def pipeline_order_def)
      next
        case False
        with st s s' have "s' = s"
          by (auto simp: handleRecordingFinished_index f state_in_def Map_get_Map_modify)
        with mem show ?thesis by (simp add: stays_or_advances_refl)
      qed
    qed
  next
    case (StasisEnd chan)
    with s s' have "s' = s"
      by (auto simp: handleStasisEnd_def state_in_def Map_get_Map_delete split: if_splits)
    with mem show ?thesis by (simp add: stays_or_advances_refl)
  qed
qed

lemma set_Map_set: "set (Map_set k v m) \<subseteq> insert (k, v) (set m)"
  by (induction m) auto

lemma Map_set_member: "(k, v) \<in> set (Map_set k v m)"
  by (induction m) auto

lemma find_in_Map_set:
  assumes "p (k, v)" and "\<forall>x \<in> set m. \<not> p x"
  shows "find p (Map_set k v m) = Some (k, v)"
proof (rule find_unique)
  show "(k, v) \<in> set (Map_set k v m)" by (rule Map_set_member)
  show "p (k, v)" by (rule assms(1))
  show "\<forall>y \<in> set (Map_set k v m). p y \<longrightarrow> y = (k, v)"
    using assms(2) set_Map_set [of k v m] by auto
qed

lemma state_in_register_channel:
  "state_in (register_channel m now chan) (ch_id chan) = Some ''started''"
  by (simp add: register_channel_def state_in_def Map_get_Map_set)

lemma normal_path:
  assumes ok: "index_ok m"
    and fresh: "\<forall>x \<in> set m. currentPlayback (snd x) \<noteq> Some playbackId \<and>
                  recordingName (snd x) \<noteq> Some (''recording-'' @ ch_id chan @ ''-'' @ String_of nowPlayed)"
  shows "state_in (fst (handleStasisStart m nowStart chan True True playbackId)) (ch_id chan)
              = Some ''answered'' \<and>
         map_option pendingRecording
              (Map_get (ch_id chan) (fst (handleStasisStart m nowStart chan True True playbackId)))
              = Some True \<and>
         state_in (fst (handlePlaybackFinished
                             (fst (handleStasisStart m nowStart chan True True playbackId))
                             nowPlayed recordingDuration playbackId True)) (ch_id chan)
              = Some ''recording'' \<and>
         state_in (fst (handleRecordingFinished
                             (fst (handlePlaybackFinished
                                     (fst (handleStasisStart m nowStart chan True True playbackId))
                                     nowPlayed recordingDuration playbackId True))
                             store nowRecorded (''recording-'' @ ch_id chan @ ''-'' @ String_of nowPlayed) True))
                     (ch_id chan)
              = Some ''processing''"
proof -
  define m2 where "m2 = fst (handleStasisStart m nowStart chan True True playbackId)"
  define m3 where "m3 = fst (handlePlaybackFinished m2 nowPlayed recordingDuration playbackId True)"
  define m4 where "m4 = fst (handleRecordingFinished m3 store nowRecorded
                        (''recording-'' @ ch_id chan @ ''-'' @ String_of nowPlayed) True)"
  let ?c = "ch_id chan"
  let ?name = "''recording-'' @ ch_id chan @ ''-'' @ String_of nowPlayed"
  let ?S = "\<lparr>s_channel = chan, s_callerId = ch_caller_number chan,
        s_callerName = ch_caller_name chan, startTime = nowStart,
        state = ''answered'', currentPlayback = Some playbackId,
        pendingRecording = True, recordingName = None\<rparr>"
  let ?F = "\<lambda>d. d\<lparr>pendingRecording := False, recordingName := Some ?name, state := ''recording''\<rparr>"
  from ok have dist: "distinct (map fst m)" by (simp add: index_ok_def)
  have m2: "m2 = Map_set ?c ?S m"
    unfolding m2_def by (simp add: handleStasisStart_index [OF dist])
  have ok2: "index_ok m2" unfolding m2_def using ok by (rule index_ok_handleStasisStart)
  have "find (\<lambda>e. currentPlayback (snd e) = Some playbackId \<and> pendingRecording (snd e))
          (Map_set ?c ?S m) = Some (?c, ?S)"
    using fresh by (intro find_in_Map_set) auto
  then have f2: "find_playback m2 playbackId = Some (?c, ?S)"
    by (simp add: find_playback_def m2)
  have m3: "m3 = Map_set ?c (?F ?S) m"
    unfolding m3_def handlePlaybackFinished_index [OF ok2] f2
    by (simp add: m2 Map_modify_Map_set [OF dist])
  have "find (\<lambda>e. recordingName (snd e) = Some ?name) (Map_set ?c (?F ?S) m) = Some (?c, ?F ?S)"
    using fresh by (intro find_in_Map_set) auto
  then have f3: "find_recording m3 ?name = Some (?c, ?F ?S)"
    by (simp add: find_recording_def m3)
  have m4: "m4 = Map_set ?c ((?F ?S)\<lparr>state := ''processing''\<rparr>) m"
    unfolding m4_def handleRecordingFinished_index f3
    by (simp add: m3 Map_modify_Map_set [OF dist])
  have "state_in m2 (ch_id chan) = Some ''answered'' \<and>
         map_option pendingRecording (Map_get (ch_id chan) m2) = Some True \<and>
         state_in m3 (ch_id chan) = Some ''recording'' \<and>
         state_in m4 (ch_id chan) = Some ''processing''"
    by (simp add: m2 m3 m4 state_in_def Map_get_Map_set)
  then show ?thesis unfolding m4_def m3_def m2_def .
qed

section \<open>The claims\<close>

subsection \<open>C4: closing a call record\<close>

text \<open>
  Claim C4, run on the code. \<open>updateCallEnded\<close> sets the record's state to \<^verbatim>\<open>ended\<close>, stamps
  the end time, the hangup cause and its text, and stores the duration 0 for a call that
  was never answered (\<open>updateCallEnded_record\<close>). For an answered call it stores the end
  instant minus the answer instant, rounded down to seconds, but it reads the answer time,
  which was stored in UTC, as a local time: the stored duration is the end time minus the
  answer time on a host in UTC only (\<open>duration_on_utc_host\<close>), and is off by the zone
  offset elsewhere (\<open>duration_off_by_zone\<close>). The call \<^verbatim>\<open>abc.1\<close> is answered at second 1005
  and ended at second 1007: on a host at UTC+05:30 the record is \<^verbatim>\<open>ended\<close> with cause 16,
  answer time 1005, end time 1007 and duration 19802; on a host in UTC the duration is 2.
\<close>

theorem C4_duration_off_by_zone_offset:
  "answer_time (hd (calls sample_answered)) = Some 1005 \<and>
   call_state (hd (calls sample_ended_kolkata)) = Some ''ended'' \<and>
   hangup_cause (hd (calls sample_ended_kolkata)) = Some ''16'' \<and>
   hangup_cause_txt (hd (calls sample_ended_kolkata)) = Some ''Normal Clearing'' \<and>
   answer_time (hd (calls sample_ended_kolkata)) = Some 1005 \<and>
   end_time (hd (calls sample_ended_kolkata)) = Some 1007 \<and>
   duration_seconds (hd (calls sample_ended_kolkata)) = Some 19802 \<and>
   duration_seconds (hd (calls sample_ended_utc)) = Some 2"
  unfolding sample_ended_kolkata_def sample_ended_utc_def sample_answered_def
  by code_simp

subsection \<open>C5: one record per unique id\<close>

text \<open>
  Claim C5. Creating a call record is idempotent per \<^verbatim>\<open>uniqueId\<close>: whatever sequence of
  writes is applied to an empty \<^verbatim>\<open>calls\<close> table, no \<^verbatim>\<open>unique_id\<close> ever has more than
  one record; and \<open>createCall\<close> for a \<^verbatim>\<open>uniqueId\<close> that already has a record leaves the
  store as it is and returns the id of that record, not an error.
\<close>

theorem C5_createCall_idempotent:
  "length (records_of (foldl apply_call_op empty_database ops) u) \<le> 1 \<and>
   (\<forall>row. getCallByUniqueId d (uniqueId cd) = Some row \<longrightarrow>
        createCall d now cd = (d, Inr (Some (c_id row))))"
proof
  have "distinct (map unique_id (calls (foldl apply_call_op empty_database ops)))"
    by (rule foldl_call_ops_distinct) (simp add: empty_database_def)
  then show "length (records_of (foldl apply_call_op empty_database ops) u) \<le> 1"
    unfolding records_of_def by (rule distinct_filter_le1)
  show "\<forall>row. getCallByUniqueId d (uniqueId cd) = Some row \<longrightarrow>
        createCall d now cd = (d, Inr (Some (c_id row)))"
    by (simp add: createCall_existing)
qed

text \<open>A second \<open>createCall\<close> for \<^verbatim>\<open>abc.1\<close> returns the id 1 of the record it finds.\<close>

theorem C5_createCall_idempotent_witness:
  "getCallByUniqueId sample_answered (uniqueId sample_call) = Some (hd (calls sample_answered)) \<and>
   createCall sample_answered 2000000 sample_call = (sample_answered, Inr (Some 1)) \<and>
   length (records_of (foldl apply_call_op empty_database
              [CreateCall 1000000 sample_call, UpdateCallAnswered 1005000 ''abc.1'',
               CreateCall 2000000 sample_call]) ''abc.1'') \<le> 1"
proof -
  have h: "getCallByUniqueId sample_answered (uniqueId sample_call) = Some (hd (calls sample_answered))"
    unfolding sample_answered_def by code_simp
  have i: "c_id (hd (calls sample_answered)) = 1"
    unfolding sample_answered_def by code_simp
  from C5_createCall_idempotent [of "[CreateCall 1000000 sample_call, UpdateCallAnswered 1005000 ''abc.1'',
               CreateCall 2000000 sample_call]" "''abc.1''" sample_answered sample_call 2000000] h i
  show ?thesis by simp
qed

subsection \<open>C6: hangup of an untracked call\<close>

text \<open>
  Claim C6. A hangup event whose \<^verbatim>\<open>uniqueid\<close> has no call record changes nothing:
  \<open>handleHangup\<close> returns the tracker as it was, store and active-call cache included, so
  no record is created; it does not raise; the repository logs the warning
  \<^verbatim>\<open>Call not found for hangup\<close> and the \<^verbatim>\<open>hangup\<close> notification is emitted as usual.
  The tracker is one whose cached calls all have a record, which every handler maintains
  (\<open>cache_backed_handleNewChannel\<close>, \<open>cache_backed_handleNewState\<close>,
  \<open>cache_backed_handleHangup\<close>).
\<close>

theorem C6_hangup_unknown:
  assumes "cache_backed t" and "ev_uniqueid event = Some u" and "getCallByUniqueId (db t) u = None"
  shows "handleHangup t zone now event =
           (t, [Notify ''hangup'' (Some u)], [(Warn, ''Call not found for hangup'')])"
proof -
  from assms(3) have "u \<notin> call_keys (db t)" by (simp add: getCall_None_iff)
  with assms(1) have "u \<notin> fst ` set (activeCalls t)" by (auto simp: cache_backed_iff)
  then have "Map_get u (activeCalls t) = None" by (simp add: Map_get_None_iff)
  then show ?thesis using assms(2,3) by (simp add: handleHangup_def updateCallEnded_unknown)
qed

text \<open>A tracker that follows the call \<^verbatim>\<open>abc.1\<close> receives the hangup of \<^verbatim>\<open>zzz.9\<close>.\<close>

theorem C6_hangup_unknown_witness:
  "cache_backed sample_tracked \<and>
   ev_uniqueid (sample_event (Some ''zzz.9'') None ''16'' ''Normal Clearing'') = Some ''zzz.9'' \<and>
   getCallByUniqueId (db sample_tracked) ''zzz.9'' = None \<and>
   handleHangup sample_tracked 0 1007000 (sample_event (Some ''zzz.9'') None ''16'' ''Normal Clearing'') =
     (sample_tracked, [Notify ''hangup'' (Some ''zzz.9'')], [(Warn, ''Call not found for hangup'')])"
proof -
  have c: "cache_backed sample_tracked"
    unfolding sample_tracked_def by (rule cache_backed_handleNewChannel [OF cache_backed_new])
  have e: "ev_uniqueid (sample_event (Some ''zzz.9'') None ''16'' ''Normal Clearing'') = Some ''zzz.9''"
    by (simp add: sample_event_def)
  have n: "getCallByUniqueId (db sample_tracked) ''zzz.9'' = None"
    unfolding sample_tracked_def by code_simp
  from C6_hangup_unknown [OF c e n] c e n show ?thesis by blast
qed

subsection \<open>C10: a channel event without a unique id\<close>

text \<open>
  Claim C10. A channel-created event whose payload has no \<^verbatim>\<open>uniqueid\<close> (or an empty one,
  which the same test rejects) is ignored: \<open>handleNewChannel\<close> returns at once, the store
  and the active-call cache are unchanged, and no notification, in particular no
  \<^verbatim>\<open>newchannel\<close>, is emitted.
\<close>

theorem C10_no_uniqueid:
  "ev_uniqueid event = None \<or> ev_uniqueid event = Some [] \<Longrightarrow>
     handleNewChannel t now event = (t, [], [])"
  by (auto simp: handleNewChannel_def)

text \<open>An event without \<^verbatim>\<open>uniqueid\<close> and one with an empty \<^verbatim>\<open>uniqueid\<close>.\<close>

theorem C10_no_uniqueid_witness:
  "ev_uniqueid (sample_event None (Some 0) [] []) = None \<and>
   handleNewChannel sample_tracked 1001000 (sample_event None (Some 0) [] []) = (sample_tracked, [], []) \<and>
   ev_uniqueid (sample_event (Some []) (Some 0) [] []) = Some [] \<and>
   handleNewChannel sample_tracked 1001000 (sample_event (Some []) (Some 0) [] []) = (sample_tracked, [], [])"
proof -
  have a: "ev_uniqueid (sample_event None (Some 0) [] []) = None" by (simp add: sample_event_def)
  have b: "ev_uniqueid (sample_event (Some []) (Some 0) [] []) = Some []" by (simp add: sample_event_def)
  from C10_no_uniqueid [OF disjI1 [OF a]] C10_no_uniqueid [OF disjI2 [OF b]] a b
  show ?thesis by blast
qed

subsection \<open>C9: the state of a call record\<close>

text \<open>
  Claim C9, as stated, fails: the record of \<^verbatim>\<open>abc.1\<close> is \<^verbatim>\<open>ended\<close> after its hangup, and
  a later state-change event with the answered code 6 sets it back to \<^verbatim>\<open>answered\<close>.
\<close>

theorem C9_counterexample:
  "state_of (db sample_ended) ''abc.1'' = Some ''ended'' \<and>
   state_of (db (fst (handleNewState sample_ended 1009000
                        (sample_event (Some ''abc.1'') (Some 6) [] [])))) ''abc.1''
     = Some ''answered''"
  unfolding sample_ended_def sample_tracked_def by code_simp

text \<open>
  Claim C9, amended. The state of a call record follows the events in the order they
  arrive: a state-change event with the answered code sets the record of its \<^verbatim>\<open>uniqueid\<close>
  to \<^verbatim>\<open>answered\<close> and a hangup event sets it to \<^verbatim>\<open>ended\<close>, each whatever the record's
  state was, \<^verbatim>\<open>ended\<close> included; every other record, and every record under a
  state-change event with another code, keeps its state. So the state is monotonic along
  initiated, answered, ended exactly when the events arrive in that order.
\<close>

theorem C9_state_follows_events:
  "state_of (db (fst (handleNewState t now event))) u =
     (if ev_channelstate event = Some 6 \<and> ev_uniqueid event = Some u \<and>
         getCallByUniqueId (db t) u \<noteq> None
      then Some ''answered'' else state_of (db t) u) \<and>
   state_of (db (fst (handleHangup t zone now event))) u =
     (if ev_uniqueid event = Some u \<and> getCallByUniqueId (db t) u \<noteq> None
      then Some ''ended'' else state_of (db t) u)"
  by (simp only: handleNewState_state handleHangup_state)

text \<open>The call \<^verbatim>\<open>abc.1\<close>, tracked and still \<^verbatim>\<open>initiated\<close>, is answered, or hung up.\<close>

theorem C9_state_follows_events_witness:
  "getCallByUniqueId (db sample_tracked) ''abc.1'' \<noteq> None \<and>
   state_of (db (fst (handleNewState sample_tracked 1005000
                        (sample_event (Some ''abc.1'') (Some 6) [] [])))) ''abc.1''
     = Some ''answered'' \<and>
   state_of (db (fst (handleHangup sample_tracked 0 1005000
                        (sample_event (Some ''abc.1'') (Some 6) [] [])))) ''abc.1''
     = Some ''ended''"
proof -
  have h: "getCallByUniqueId (db sample_tracked) ''abc.1'' \<noteq> None"
    unfolding sample_tracked_def by code_simp
  from C9_state_follows_events [where t = sample_tracked and now = 1005000 and zone = 0
         and event = "sample_event (Some ''abc.1'') (Some 6) [] []" and u = "''abc.1''"] h
  show ?thesis by (simp add: sample_event_def)
qed

subsection \<open>C2: the status of a transcription job\<close>

text \<open>
  Claim C2, as stated, fails: the job 1 has been completed by \<open>processRecording\<close>; then
  \<open>failTranscription\<close> makes it \<^verbatim>\<open>failed\<close>, and \<open>markAsProcessing\<close> takes it back to
  \<^verbatim>\<open>processing\<close>.
\<close>

theorem C2_counterexample:
  "status_of sample_completed 1 = Some ''completed'' \<and>
   status_of (fst (failTranscription sample_completed 1020000 1 ''late error'')) 1 = Some ''failed'' \<and>
   status_of (fst (markAsProcessing sample_completed 1020000 1)) 1 = Some ''processing''"
  unfolding sample_completed_def sample_job_def sample_answered_def by code_simp

text \<open>
  Claim C2, amended. The three status updates have no guard on the current status:
  \<open>markAsProcessing\<close>, \<open>completeTranscription\<close> and \<open>failTranscription\<close> set the status
  of the job with the given id to \<^verbatim>\<open>processing\<close>, \<^verbatim>\<open>completed\<close> and \<^verbatim>\<open>failed\<close>, whatever
  it was, and leave every other job's status alone. \<open>processRecording\<close> applies the first
  two in this order, so a job it is run on ends \<^verbatim>\<open>completed\<close>; on a pending job that is
  the path pending, processing, completed.
\<close>

theorem C2_status_is_overwritten:
  "status_of (fst (markAsProcessing d now i)) j =
     (if j = i \<and> getTranscriptionById d i \<noteq> None then Some ''processing'' else status_of d j) \<and>
   status_of (fst (completeTranscription d now i txt)) j =
     (if j = i \<and> getTranscriptionById d i \<noteq> None then Some ''completed'' else status_of d j) \<and>
   status_of (fst (failTranscription d now i msg)) j =
     (if j = i \<and> getTranscriptionById d i \<noteq> None then Some ''failed'' else status_of d j) \<and>
   status_of (fst (processRecording d nowStart nowEnd draw i path)) j =
     (if j = i \<and> getTranscriptionById d i \<noteq> None then Some ''completed'' else status_of d j)"
  by (simp only: status_of_markAsProcessing status_of_completeTranscription
        status_of_failTranscription status_of_processRecording simp_thms)

text \<open>The pending job 1 under each of the four operations.\<close>

theorem C2_status_is_overwritten_witness:
  "getTranscriptionById sample_job 1 \<noteq> None \<and>
   status_of sample_job 1 = Some ''pending'' \<and>
   status_of (fst (markAsProcessing sample_job 1011000 1)) 1 = Some ''processing'' \<and>
   status_of (fst (completeTranscription sample_job 1011000 1 ''hello'')) 1 = Some ''completed'' \<and>
   status_of (fst (failTranscription sample_job 1011000 1 ''boom'')) 1 = Some ''failed'' \<and>
   status_of (fst (processRecording sample_job 1011000 1014000 7 1 None)) 1 = Some ''completed''"
proof -
  have h: "getTranscriptionById sample_job 1 \<noteq> None"
    unfolding sample_job_def sample_answered_def by code_simp
  have p: "status_of sample_job 1 = Some ''pending''"
    unfolding sample_job_def sample_answered_def by code_simp
  from C2_status_is_overwritten [of sample_job 1011000 1 1 "''hello''" "''boom''" 1011000 1014000 7 None]
    h p
  show ?thesis by simp
qed

subsection \<open>C3: the batch retry\<close>

text \<open>
  Claim C3, as stated, fails: a job that is \<^verbatim>\<open>processing\<close> is not in a terminal state, and
  the fetch of the batch retry does not return it.
\<close>

theorem C3_counterexample:
  "map transcription_status (transcriptions sample_processing) = [Some ''processing''] \<and>
   getPendingTranscriptions sample_processing = []"
  unfolding sample_processing_def sample_job_def sample_answered_def by code_simp

text \<open>
  Claim C3, amended. The fetch of the batch retry, \<open>getPendingTranscriptions\<close>, returns
  exactly the jobs whose status is \<^verbatim>\<open>pending\<close>, each once, a job in \<^verbatim>\<open>processing\<close> not
  being among them, ordered by creation time ascending.
\<close>

theorem C3_fetch_pending_only:
  "mset (getPendingTranscriptions d) =
     filter_mset (\<lambda>t. transcription_status t = Some ''pending'') (mset (transcriptions d)) \<and>
   sorted (map t_created_at (getPendingTranscriptions d))"
  by (simp add: getPendingTranscriptions_def)

subsection \<open>C7: the limit on reconnect attempts\<close>




subsection \<open>C8: correlating completion events with sessions\<close>

text \<open>
  Claim C8. A playback-finished event changes at most one session, and only one that the
  scan selects: the first, in insertion order, whose \<^verbatim>\<open>currentPlayback\<close> is the finished
  playback and whose pending flag is set. A session holding another playback id is left
  exactly as it was, and no session is added or removed. The same holds for a
  recording-finished event and the session whose \<^verbatim>\<open>recordingName\<close> is the finished
  recording. So two sessions with distinct correlation keys never cross-match. The
  index is one the handlers produce (\<open>index_ok\<close>, kept by every handler:
  \<open>index_ok_ari_step\<close>).
\<close>

theorem C8_correlation:
  assumes "index_ok m"
  shows
    "(\<forall>k d. Map_get k m = Some d \<and>
            Map_get k (fst (handlePlaybackFinished m now recordingDuration playbackId recordOk)) \<noteq> Some d
            \<longrightarrow> find_playback m playbackId = Some (k, d) \<and>
                currentPlayback d = Some playbackId \<and> pendingRecording d) \<and>
     (\<forall>k d. Map_get k m = Some d \<and> currentPlayback d \<noteq> Some playbackId
            \<longrightarrow> Map_get k (fst (handlePlaybackFinished m now recordingDuration playbackId recordOk)) = Some d) \<and>
     map fst (fst (handlePlaybackFinished m now recordingDuration playbackId recordOk)) = map fst m \<and>
     (\<forall>k d. Map_get k m = Some d \<and>
            Map_get k (fst (handleRecordingFinished m store now name goodbyeOk)) \<noteq> Some d
            \<longrightarrow> find_recording m name = Some (k, d) \<and> recordingName d = Some name) \<and>
     (\<forall>k d. Map_get k m = Some d \<and> recordingName d \<noteq> Some name
            \<longrightarrow> Map_get k (fst (handleRecordingFinished m store now name goodbyeOk)) = Some d) \<and>
     map fst (fst (handleRecordingFinished m store now name goodbyeOk)) = map fst m"
proof -
  have p1: "find_playback m playbackId = Some (k, d) \<and>
                currentPlayback d = Some playbackId \<and> pendingRecording d"
    if "Map_get k m = Some d"
      and "Map_get k (fst (handlePlaybackFinished m now recordingDuration playbackId recordOk)) \<noteq> Some d"
    for k d
  proof -
    from assms that have "find_playback m playbackId = Some (k, d)" by (rule playback_changes_holder)
    then show ?thesis by (simp add: find_playback_entry)
  qed
  have r1: "find_recording m name = Some (k, d) \<and> recordingName d = Some name"
    if "Map_get k m = Some d"
      and "Map_get k (fst (handleRecordingFinished m store now name goodbyeOk)) \<noteq> Some d"
    for k d
  proof -
    from assms that have "find_recording m name = Some (k, d)" by (rule recording_changes_holder)
    then show ?thesis by (simp add: find_recording_entry)
  qed
  have p3: "map fst (fst (handlePlaybackFinished m now recordingDuration playbackId recordOk)) = map fst m"
    by (simp add: handlePlaybackFinished_index [OF assms] keys_Map_modify split: option.splits)
  have r3: "map fst (fst (handleRecordingFinished m store now name goodbyeOk)) = map fst m"
    by (simp add: handleRecordingFinished_index keys_Map_modify split: option.splits)
  from p1 r1 p3 r3 show ?thesis by blast
qed

text \<open>
  Two sessions wait for the end of their prompts; the playback of the second finishes.
  Later both record; the recording of the first finishes.
\<close>

theorem C8_correlation_witness:
  "index_ok sample_prompting \<and>
   Map_get ''1700000000.2'' sample_prompting = Some (snd (sample_prompting ! 1)) \<and>
   Map_get ''1700000000.2'' (fst (handlePlaybackFinished sample_prompting 3 10 ''pb-B'' True))
     \<noteq> Some (snd (sample_prompting ! 1)) \<and>
   find_playback sample_prompting ''pb-B'' = Some (''1700000000.2'', snd (sample_prompting ! 1)) \<and>
   Map_get ''1700000000.1'' sample_prompting = Some (snd (sample_prompting ! 0)) \<and>
   currentPlayback (snd (sample_prompting ! 0)) \<noteq> Some ''pb-B'' \<and>
   Map_get ''1700000000.1'' (fst (handlePlaybackFinished sample_prompting 3 10 ''pb-B'' True))
     = Some (snd (sample_prompting ! 0)) \<and>
   index_ok sample_recording \<and>
   Map_get ''1700000000.1'' sample_recording = Some (snd (sample_recording ! 0)) \<and>
   Map_get ''1700000000.1''
      (fst (handleRecordingFinished sample_recording empty_database 9
              ''recording-1700000000.1-3'' True))
     \<noteq> Some (snd (sample_recording ! 0)) \<and>
   find_recording sample_recording ''recording-1700000000.1-3''
     = Some (''1700000000.1'', snd (sample_recording ! 0)) \<and>
   Map_get ''1700000000.2'' sample_recording = Some (snd (sample_recording ! 1)) \<and>
   recordingName (snd (sample_recording ! 1)) \<noteq> Some ''recording-1700000000.1-3'' \<and>
   Map_get ''1700000000.2''
      (fst (handleRecordingFinished sample_recording empty_database 9
              ''recording-1700000000.1-3'' True))
     = Some (snd (sample_recording ! 1))"
proof -
  have i1: "index_ok sample_prompting"
    unfolding sample_prompting_def
    by (intro index_ok_handleStasisStart) (simp add: index_ok_def)
  have i2: "index_ok sample_recording"
    unfolding sample_recording_def
    by (intro index_ok_handlePlaybackFinished i1)
  have a1: "Map_get ''1700000000.2'' sample_prompting = Some (snd (sample_prompting ! 1))"
    unfolding sample_prompting_def channel_A_def channel_B_def by code_simp
  have a2: "Map_get ''1700000000.2'' (fst (handlePlaybackFinished sample_prompting 3 10 ''pb-B'' True))
     \<noteq> Some (snd (sample_prompting ! 1))"
    unfolding sample_prompting_def channel_A_def channel_B_def by code_simp
  have a3: "Map_get ''1700000000.1'' sample_prompting = Some (snd (sample_prompting ! 0))"
    unfolding sample_prompting_def channel_A_def channel_B_def by code_simp
  have a4: "currentPlayback (snd (sample_prompting ! 0)) \<noteq> Some ''pb-B''"
    unfolding sample_prompting_def channel_A_def channel_B_def by code_simp
  have b1: "Map_get ''1700000000.1'' sample_recording = Some (snd (sample_recording ! 0))"
    unfolding sample_recording_def sample_prompting_def channel_A_def channel_B_def by code_simp
  have b2: "Map_get ''1700000000.1''
      (fst (handleRecordingFinished sample_recording empty_database 9
              ''recording-1700000000.1-3'' True))
     \<noteq> Some (snd (sample_recording ! 0))"
    unfolding sample_recording_def sample_prompting_def channel_A_def channel_B_def by code_simp
  have b3: "Map_get ''1700000000.2'' sample_recording = Some (snd (sample_recording ! 1))"
    unfolding sample_recording_def sample_prompting_def channel_A_def channel_B_def by code_simp
  have b4: "recordingName (snd (sample_recording ! 1)) \<noteq> Some ''recording-1700000000.1-3''"
    unfolding sample_recording_def sample_prompting_def channel_A_def channel_B_def by code_simp
  note p = C8_correlation [OF i1, where now = 3 and recordingDuration = 10 and playbackId = "''pb-B''"
      and recordOk = True]
  note r = C8_correlation [OF i2, where store = empty_database and now = 9
      and name = "''recording-1700000000.1-3''" and goodbyeOk = True]
  from p a1 a2 have c1: "find_playback sample_prompting ''pb-B'' = Some (''1700000000.2'', snd (sample_prompting ! 1))"
    by blast
  from p a3 a4 have c2: "Map_get ''1700000000.1'' (fst (handlePlaybackFinished sample_prompting 3 10 ''pb-B'' True))
     = Some (snd (sample_prompting ! 0))"
    by blast
  from r b1 b2 have c3: "find_recording sample_recording ''recording-1700000000.1-3''
     = Some (''1700000000.1'', snd (sample_recording ! 0))"
    by blast
  from r b3 b4 have c4: "Map_get ''1700000000.2''
      (fst (handleRecordingFinished sample_recording empty_database 9
              ''recording-1700000000.1-3'' True))
     = Some (snd (sample_recording ! 1))"
    by blast
  from i1 i2 a1 a2 a3 a4 b1 b2 b3 b4 c1 c2 c3 c4 show ?thesis by blast
qed

subsection \<open>C1: the order of a session's states\<close>

text \<open>
  Claim C1, as stated, fails: on the normal path the \<^verbatim>\<open>state\<close> of a session is
  \<^verbatim>\<open>started\<close>, then \<^verbatim>\<open>answered\<close>; while the prompt plays it is still \<^verbatim>\<open>answered\<close>, with the
  pending flag set, and the end of the prompt takes it to \<^verbatim>\<open>recording\<close>, then
  \<^verbatim>\<open>processing\<close>. No state \<^verbatim>\<open>prompting\<close> is assumed.
\<close>

theorem C1_counterexample:
  "state_in sample_registered ''1700000000.1'' = Some ''started'' \<and>
   state_in sample_prompting ''1700000000.1'' = Some ''answered'' \<and>
   map_option pendingRecording (Map_get ''1700000000.1'' sample_prompting) = Some True \<and>
   state_in sample_prompting ''1700000000.1'' \<noteq> Some ''prompting'' \<and>
   state_in (fst (handlePlaybackFinished sample_prompting 3 10 ''pb-A'' True)) ''1700000000.1''
     = Some ''recording'' \<and>
   state_in sample_finished ''1700000000.1'' = Some ''processing''"
  unfolding sample_registered_def sample_prompting_def sample_finished_def sample_recording_def
    channel_A_def channel_B_def
  by code_simp

text \<open>
  Claim C1, amended. The \<^verbatim>\<open>state\<close> of a session takes the four values \<^verbatim>\<open>started\<close>,
  \<^verbatim>\<open>answered\<close>, \<^verbatim>\<open>recording\<close>, \<^verbatim>\<open>processing\<close>, and every event leaves the state of a
  session it does not create where it was or moves it one step along this order, never
  back and never past a step; the prompt is played in state \<^verbatim>\<open>answered\<close>, marked by the
  pending flag, not in a state of its own; the session-end event removes the session, no
  state \<^verbatim>\<open>ended\<close> being assigned. On the normal path (answer and commands
  succeed, the playback id and the recording name are held by no other session) the
  session is \<^verbatim>\<open>started\<close> when it is stored, \<^verbatim>\<open>answered\<close> with the pending flag set when
  \<open>handleStasisStart\<close> is done, \<^verbatim>\<open>recording\<close> after its playback-finished event and
  \<^verbatim>\<open>processing\<close> after its recording-finished event.
\<close>

theorem C1_pipeline_order:
  assumes "index_ok m"
  shows
    "index_ok (fst (ari_step (m, d) e)) \<and>
     state_in (fst (handleStasisEnd m ended)) (ch_id ended) = None \<and>
     (\<forall>k s. state_in m k = Some s \<longrightarrow> s \<in> set pipeline_order) \<and>
     (\<forall>k s s'. state_in m k = Some s \<and> state_in (fst (ari_step (m, d) e)) k = Some s' \<and>
               started_by e \<noteq> Some k
        \<longrightarrow> stays_or_advances s s') \<and>
     ((\<forall>x \<in> set m. currentPlayback (snd x) \<noteq> Some playbackId \<and>
                  recordingName (snd x) \<noteq> Some (''recording-'' @ ch_id chan @ ''-'' @ String_of nowPlayed))
        \<longrightarrow> state_in (register_channel m nowStart chan) (ch_id chan) = Some ''started'' \<and>
            state_in (fst (handleStasisStart m nowStart chan True True playbackId)) (ch_id chan)
              = Some ''answered'' \<and>
            map_option pendingRecording
              (Map_get (ch_id chan) (fst (handleStasisStart m nowStart chan True True playbackId)))
              = Some True \<and>
            state_in (fst (handlePlaybackFinished
                             (fst (handleStasisStart m nowStart chan True True playbackId))
                             nowPlayed recordingDuration playbackId True)) (ch_id chan)
              = Some ''recording'' \<and>
            state_in (fst (handleRecordingFinished
                             (fst (handlePlaybackFinished
                                     (fst (handleStasisStart m nowStart chan True True playbackId))
                                     nowPlayed recordingDuration playbackId True))
                             d nowRecorded (''recording-'' @ ch_id chan @ ''-'' @ String_of nowPlayed) True))
                     (ch_id chan)
              = Some ''processing'')"
proof (intro conjI allI impI)
  show "index_ok (fst (ari_step (m, d) e))" using assms by (rule index_ok_ari_step)
next
  show "state_in (fst (handleStasisEnd m ended)) (ch_id ended) = None"
    by (simp add: handleStasisEnd_def state_in_def Map_get_Map_delete)
next
  fix k s assume "state_in m k = Some s"
  with assms show "s \<in> set pipeline_order" by (rule state_in_ok)
next
  fix k s s'
  assume "state_in m k = Some s \<and> state_in (fst (ari_step (m, d) e)) k = Some s' \<and>
               started_by e \<noteq> Some k"
  with assms show "stays_or_advances s s'" by (blast intro: step_in_order)
next
  show "state_in (register_channel m nowStart chan) (ch_id chan) = Some ''started''"
    by (rule state_in_register_channel)
next
  assume fresh: "\<forall>x \<in> set m. currentPlayback (snd x) \<noteq> Some playbackId \<and>
                  recordingName (snd x) \<noteq> Some (''recording-'' @ ch_id chan @ ''-'' @ String_of nowPlayed)"
  note np = normal_path [OF assms fresh, of nowStart recordingDuration d nowRecorded]
  from np show "state_in (fst (handleStasisStart m nowStart chan True True playbackId)) (ch_id chan)
              = Some ''answered''" by blast
  from np show "map_option pendingRecording
              (Map_get (ch_id chan) (fst (handleStasisStart m nowStart chan True True playbackId)))
              = Some True" by blast
  from np show "state_in (fst (handlePlaybackFinished
                             (fst (handleStasisStart m nowStart chan True True playbackId))
                             nowPlayed recordingDuration playbackId True)) (ch_id chan)
              = Some ''recording''" by blast
  from np show "state_in (fst (handleRecordingFinished
                             (fst (handlePlaybackFinished
                                     (fst (handleStasisStart m nowStart chan True True playbackId))
                                     nowPlayed recordingDuration playbackId True))
                             d nowRecorded (''recording-'' @ ch_id chan @ ''-'' @ String_of nowPlayed) True))
                     (ch_id chan)
              = Some ''processing''" by blast
qed

text \<open>
  With two sessions waiting for the end of their prompts, the playback of the first
  finishes, and a third call runs through the whole pipeline.
\<close>

theorem C1_pipeline_order_witness:
  "index_ok sample_prompting \<and>
   state_in sample_prompting ''1700000000.1'' = Some ''answered'' \<and>
   ''answered'' \<in> set pipeline_order \<and>
   state_in (fst (ari_step (sample_prompting, empty_database) (PlaybackFinished 3 10 ''pb-A'' True)))
     ''1700000000.1'' = Some ''recording'' \<and>
   started_by (PlaybackFinished 3 10 ''pb-A'' True) \<noteq> Some ''1700000000.1'' \<and>
   stays_or_advances ''answered'' ''recording'' \<and>
   state_in (register_channel sample_prompting 5 channel_C) (ch_id channel_C) = Some ''started'' \<and>
   state_in (fst (handleStasisStart sample_prompting 5 channel_C True True ''pb-C'')) (ch_id channel_C)
     = Some ''answered'' \<and>
   state_in (fst (handlePlaybackFinished
                    (fst (handleStasisStart sample_prompting 5 channel_C True True ''pb-C''))
                    6 10 ''pb-C'' True)) (ch_id channel_C)
     = Some ''recording'' \<and>
   state_in (fst (handleRecordingFinished
                    (fst (handlePlaybackFinished
                            (fst (handleStasisStart sample_prompting 5 channel_C True True ''pb-C''))
                            6 10 ''pb-C'' True))
                    empty_database 9 (''recording-'' @ ch_id channel_C @ ''-'' @ String_of 6) True))
            (ch_id channel_C)
     = Some ''processing''"
proof -
  have i: "index_ok sample_prompting"
    unfolding sample_prompting_def
    by (intro index_ok_handleStasisStart) (simp add: index_ok_def)
  have a: "state_in sample_prompting ''1700000000.1'' = Some ''answered''"
    unfolding sample_prompting_def channel_A_def channel_B_def by code_simp
  have b: "state_in (fst (ari_step (sample_prompting, empty_database) (PlaybackFinished 3 10 ''pb-A'' True)))
     ''1700000000.1'' = Some ''recording''"
    unfolding sample_prompting_def channel_A_def channel_B_def by code_simp
  have c: "started_by (PlaybackFinished 3 10 ''pb-A'' True) \<noteq> Some ''1700000000.1''"
    by simp
  have f: "\<forall>x \<in> set sample_prompting.
       currentPlayback (snd x) \<noteq> Some ''pb-C'' \<and>
       recordingName (snd x) \<noteq> Some (''recording-'' @ ch_id channel_C @ ''-'' @ String_of 6)"
    unfolding sample_prompting_def channel_A_def channel_B_def channel_C_def by code_simp
  note t = C1_pipeline_order [OF i, where d = empty_database and e = "PlaybackFinished 3 10 ''pb-A'' True"
      and playbackId = "''pb-C''" and chan = channel_C and nowStart = 5 and nowPlayed = 6
      and recordingDuration = 10 and nowRecorded = 9]
  from t a have 1: "''answered'' \<in> set pipeline_order" by blast
  from t a b c have 2: "stays_or_advances ''answered'' ''recording''" by blast
  from t f have 3: "state_in (register_channel sample_prompting 5 channel_C) (ch_id channel_C) = Some ''started'' \<and>
   state_in (fst (handleStasisStart sample_prompting 5 channel_C True True ''pb-C'')) (ch_id channel_C)
     = Some ''answered'' \<and>
   state_in (fst (handlePlaybackFinished
                    (fst (handleStasisStart sample_prompting 5 channel_C True True ''pb-C''))
                    6 10 ''pb-C'' True)) (ch_id channel_C)
     = Some ''recording'' \<and>
   state_in (fst (handleRecordingFinished
                    (fst (handlePlaybackFinished
                            (fst (handleStasisStart sample_prompting 5 channel_C True True ''pb-C''))
                            6 10 ''pb-C'' True))
                    empty_database 9 (''recording-'' @ ch_id channel_C @ ''-'' @ String_of 6) True))
            (ch_id channel_C)
     = Some ''processing''" by blast
  from i a b c 1 2 3 show ?thesis by blast
qed

end
